theory Spec2Isabelle
  imports Main "HOL-Library.Word"
begin

unbundle bit_operations_syntax

section \<open>Common machinery\<close>

type_synonym u8 = "8 word"
type_synonym u16 = "16 word"
type_synonym s16 = "16 word"
type_synonym u32 = "32 word"

text \<open>
  A kernel function either returns a value, or the kernel stops inside it: a
  \<^verbatim>\<open>BUG_ON\<close> that fires, or a call through a NULL pointer.  \<open>Crash\<close> carries the
  machine state at the moment the kernel stopped, \<open>Ret\<close> the returned value and the
  state on return.
\<close>

datatype ('a, 's) outcome = Crash 's | Ret 'a 's

text \<open>
  Modelled from the spec: the error results that the spec calls \<open>Busy\<close>,
  \<open>AlreadyDeasserted\<close>, \<open>InvalidArgument\<close> and \<open>Timeout\<close>.  The source returns them as
  \<^verbatim>\<open>-EBUSY\<close>, \<^verbatim>\<open>-EEXIST\<close>, \<^verbatim>\<open>-EINVAL\<close> and \<^verbatim>\<open>-ETIMEDOUT\<close>; the numbers are those of the
  errno headers of the kernel, which are not among the sources at hand.  Success is 0.
\<close>

definition EBUSY :: int where "EBUSY = 16"
definition EEXIST :: int where "EEXIST = 17"
definition EINVAL :: int where "EINVAL = 22"
definition ETIMEDOUT :: int where "ETIMEDOUT = 110"

text \<open>
  Modelled from the spec: the polling macro \<^verbatim>\<open>omap_test_timeout(cond, timeout, index)\<close>
  of \<^verbatim>\<open>common.h\<close>, which is used by both source files but is not part of them.  The spec
  describes it as a busy wait with a bounded iteration count, where each iteration that
  fails to observe the condition consumes one unit of the budget and is followed by a
  microsecond delay, and where the iteration counter is left in an out-parameter:
  \<^verbatim>\<open>for (index = 0; index < timeout; index++) { if (cond) break; udelay(1); }\<close>
  The condition may itself stop the kernel.
\<close>

function omap_test_timeout ::
  "('s \<Rightarrow> (bool, 's) outcome) \<Rightarrow> ('s \<Rightarrow> 's) \<Rightarrow> nat \<Rightarrow> nat \<Rightarrow> 's \<Rightarrow> (nat, 's) outcome"
where
  "omap_test_timeout cond delay timeout index s =
     (if index < timeout then
        (case cond s of
           Crash s' \<Rightarrow> Crash s'
         | Ret c s' \<Rightarrow>
             if c then Ret index s'
             else omap_test_timeout cond delay timeout (index + 1) (delay s'))
      else Ret index s)"
  by pat_completeness auto
termination
  by (relation "measure (\<lambda>(cond, delay, timeout, index, s). timeout - index)") auto

declare omap_test_timeout.simps [simp del]

text \<open>
  What it means for a polling budget to run out: none of the first \<open>n\<close> evaluations of
  the condition, each followed by the delay, finds it true.
\<close>

fun polls_all_fail :: "('s \<Rightarrow> (bool, 's) outcome) \<Rightarrow> ('s \<Rightarrow> 's) \<Rightarrow> nat \<Rightarrow> 's \<Rightarrow> bool" where
  "polls_all_fail cond delay 0 s = True"
| "polls_all_fail cond delay (Suc n) s =
     (case cond s of
        Crash s' \<Rightarrow> False
      | Ret c s' \<Rightarrow> \<not> c \<and> polls_all_fail cond delay n (delay s'))"

text \<open>An \<^verbatim>\<open>int\<close>-valued call used as a C condition: true when the value is not 0.\<close>

definition as_cond :: "('s \<Rightarrow> (int, 's) outcome) \<Rightarrow> 's \<Rightarrow> (bool, 's) outcome" where
  "as_cond f s = (case f s of Crash s' \<Rightarrow> Crash s' | Ret a s' \<Rightarrow> Ret (a \<noteq> 0) s')"

section \<open>The OMAP4 PRM instance functions (prminst44xx.c)\<close>

subsection \<open>Platform constants and the register bus\<close>

text \<open>
  The partition numbers and the reset polling budget come from headers that are not part
  of the sources at hand (\<^verbatim>\<open>prcm44xx.h\<close>, \<^verbatim>\<open>prm44xx.h\<close>); they are parameters of the model.
\<close>

record prcm_consts =
  OMAP4_MAX_PRCM_PARTITIONS :: nat
  OMAP4430_INVALID_PRCM_PARTITION :: u8
  OMAP4430_PRM_PARTITION :: u8
  OMAP4430_PRCM_MPU_PARTITION :: u8
  OMAP4430_SCRM_PARTITION :: u8
  MAX_MODULE_HARDRESET_WAIT :: nat

text \<open>
  The hardware behind \<^verbatim>\<open>__raw_readl\<close>, \<^verbatim>\<open>__raw_writel\<close> and \<^verbatim>\<open>udelay\<close> is a parameter as
  well: a state \<open>'h\<close> and the reaction of the device to each access.  A read may change
  the device (time passes, status bits are latched).
\<close>

record 'h mmio =
  raw_readl :: "u32 \<Rightarrow> 'h \<Rightarrow> u32 \<times> 'h"
  raw_writel :: "u32 \<Rightarrow> u32 \<Rightarrow> 'h \<Rightarrow> 'h"
  udelay_hw :: "nat \<Rightarrow> 'h \<Rightarrow> 'h"

datatype access = Readl u32 | Writel u32 u32

text \<open>
  The state of the PRM layer: the static table \<^verbatim>\<open>_prm_bases[]\<close> (a NULL base is 0), the
  device, and the list of register accesses made so far, oldest first.  \<open>Writel v a\<close>
  records that \<open>v\<close> was written to address \<open>a\<close>.
\<close>

record 'h prm_state =
  prm_bases :: "nat \<Rightarrow> u32"
  hw :: 'h
  bus :: "access list"

record omap_globals =
  prm :: u32
  prcm_mpu :: u32
  scrm :: u32

definition omap4_prm_base_init ::
  "prcm_consts \<Rightarrow> omap_globals \<Rightarrow> (nat \<Rightarrow> u32) \<Rightarrow> (nat \<Rightarrow> u32)"
where
  "omap4_prm_base_init K omap2_globals bases =
     bases (unat (OMAP4430_PRM_PARTITION K) := prm omap2_globals,
            unat (OMAP4430_PRCM_MPU_PARTITION K) := prcm_mpu omap2_globals,
            unat (OMAP4430_SCRM_PARTITION K) := scrm omap2_globals)"

text \<open>
  The tables the running kernel can hold: the zero-initialised static array, overwritten
  by the calls of \<open>omap4_prm_base_init\<close> made so far, here with the arguments \<open>gs\<close> in
  the order of the calls.
\<close>

definition prm_bases_after :: "prcm_consts \<Rightarrow> omap_globals list \<Rightarrow> (nat \<Rightarrow> u32)" where
  "prm_bases_after K gs = fold (omap4_prm_base_init K) gs (\<lambda>_. 0)"

text \<open>
  What the header guarantees about the partition numbers: the three partitions that
  receive a base are inside the table and differ from the invalid-partition sentinel.
\<close>

definition prcm_consts_ok :: "prcm_consts \<Rightarrow> bool" where
  "prcm_consts_ok K \<longleftrightarrow>
     unat (OMAP4430_PRM_PARTITION K) < OMAP4_MAX_PRCM_PARTITIONS K \<and>
     unat (OMAP4430_PRCM_MPU_PARTITION K) < OMAP4_MAX_PRCM_PARTITIONS K \<and>
     unat (OMAP4430_SCRM_PARTITION K) < OMAP4_MAX_PRCM_PARTITIONS K \<and>
     OMAP4430_PRM_PARTITION K \<noteq> OMAP4430_INVALID_PRCM_PARTITION K \<and>
     OMAP4430_PRCM_MPU_PARTITION K \<noteq> OMAP4430_INVALID_PRCM_PARTITION K \<and>
     OMAP4430_SCRM_PARTITION K \<noteq> OMAP4430_INVALID_PRCM_PARTITION K"

subsection \<open>Register access\<close>

text \<open>The condition of the \<^verbatim>\<open>BUG_ON\<close> that guards both accessors.  The table is
  indexed only when the first two tests have failed, so no entry outside the array is
  read; \<^verbatim>\<open>BUG_ON\<close> with a true condition stops the kernel.\<close>

definition prm_bug_on :: "prcm_consts \<Rightarrow> (nat \<Rightarrow> u32) \<Rightarrow> u8 \<Rightarrow> bool" where
  "prm_bug_on K bases part \<longleftrightarrow>
     unat part \<ge> OMAP4_MAX_PRCM_PARTITIONS K \<or>
     part = OMAP4430_INVALID_PRCM_PARTITION K \<or>
     bases (unat part) = 0"

text \<open>
  \<^verbatim>\<open>_prm_bases[part] + inst + idx\<close>: byte arithmetic on a 32-bit pointer, with the signed
  16-bit instance offset sign-extended and the unsigned 16-bit register index
  zero-extended.
\<close>

definition prm_reg_addr :: "(nat \<Rightarrow> u32) \<Rightarrow> u8 \<Rightarrow> s16 \<Rightarrow> u16 \<Rightarrow> u32" where
  "prm_reg_addr bases part inst idx = bases (unat part) + scast inst + ucast idx"

definition omap4_prminst_read_inst_reg ::
  "prcm_consts \<Rightarrow> 'h mmio \<Rightarrow> u8 \<Rightarrow> s16 \<Rightarrow> u16 \<Rightarrow> 'h prm_state \<Rightarrow> (u32, 'h prm_state) outcome"
where
  "omap4_prminst_read_inst_reg K io part inst idx s =
     (if prm_bug_on K (prm_bases s) part then Crash s
      else
        let a = prm_reg_addr (prm_bases s) part inst idx;
            (v, h') = raw_readl io a (hw s)
        in Ret v (s\<lparr>hw := h', bus := bus s @ [Readl a]\<rparr>))"

definition omap4_prminst_write_inst_reg ::
  "prcm_consts \<Rightarrow> 'h mmio \<Rightarrow> u32 \<Rightarrow> u8 \<Rightarrow> s16 \<Rightarrow> u16 \<Rightarrow> 'h prm_state \<Rightarrow> (unit, 'h prm_state) outcome"
where
  "omap4_prminst_write_inst_reg K io val part inst idx s =
     (if prm_bug_on K (prm_bases s) part then Crash s
      else
        let a = prm_reg_addr (prm_bases s) part inst idx
        in Ret () (s\<lparr>hw := raw_writel io val a (hw s), bus := bus s @ [Writel val a]\<rparr>))"

definition omap4_prminst_rmw_inst_reg_bits ::
  "prcm_consts \<Rightarrow> 'h mmio \<Rightarrow> u32 \<Rightarrow> u32 \<Rightarrow> u8 \<Rightarrow> s16 \<Rightarrow> u16 \<Rightarrow> 'h prm_state \<Rightarrow>
     (u32, 'h prm_state) outcome"
where
  "omap4_prminst_rmw_inst_reg_bits K io msk bits part inst idx s =
     (case omap4_prminst_read_inst_reg K io part inst idx s of
        Crash s' \<Rightarrow> Crash s'
      | Ret v0 s1 \<Rightarrow>
          let v = (v0 AND NOT msk) OR bits
          in (case omap4_prminst_write_inst_reg K io v part inst idx s1 of
                Crash s' \<Rightarrow> Crash s'
              | Ret _ s2 \<Rightarrow> Ret v s2))"

subsection \<open>Hard reset lines\<close>

text \<open>
  \<^verbatim>\<open>1 << shift\<close> as a 32-bit mask.  A shift of 32 or more is outside the hardware contract
  (a register has 32 reset lines); the model gives the empty mask there.
\<close>

definition reset_mask :: "u8 \<Rightarrow> u32" where
  "reset_mask shift = push_bit (unat shift) 1"

definition OMAP4_RST_CTRL_ST_OFFSET :: u16 where
  "OMAP4_RST_CTRL_ST_OFFSET = 4"

definition omap4_prminst_is_hardreset_asserted ::
  "prcm_consts \<Rightarrow> 'h mmio \<Rightarrow> u8 \<Rightarrow> u8 \<Rightarrow> s16 \<Rightarrow> u16 \<Rightarrow> 'h prm_state \<Rightarrow> (int, 'h prm_state) outcome"
where
  "omap4_prminst_is_hardreset_asserted K io shift part inst rstctrl_offs s =
     (case omap4_prminst_read_inst_reg K io part inst rstctrl_offs s of
        Crash s' \<Rightarrow> Crash s'
      | Ret v0 s1 \<Rightarrow>
          let v = v0 AND reset_mask shift;
              v = drop_bit (unat shift) v
          in Ret (uint v) s1)"

definition omap4_prminst_assert_hardreset ::
  "prcm_consts \<Rightarrow> 'h mmio \<Rightarrow> u8 \<Rightarrow> u8 \<Rightarrow> s16 \<Rightarrow> u16 \<Rightarrow> 'h prm_state \<Rightarrow> (int, 'h prm_state) outcome"
where
  "omap4_prminst_assert_hardreset K io shift part inst rstctrl_offs s =
     (let msk = reset_mask shift
      in case omap4_prminst_rmw_inst_reg_bits K io msk msk part inst rstctrl_offs s of
           Crash s' \<Rightarrow> Crash s'
         | Ret _ s1 \<Rightarrow> Ret 0 s1)"

text \<open>The delay between two polls: \<^verbatim>\<open>udelay(1)\<close> lets the device advance.\<close>

definition prm_udelay :: "'h mmio \<Rightarrow> nat \<Rightarrow> 'h prm_state \<Rightarrow> 'h prm_state" where
  "prm_udelay io n s = s\<lparr>hw := udelay_hw io n (hw s)\<rparr>"

definition omap4_prminst_deassert_hardreset ::
  "prcm_consts \<Rightarrow> 'h mmio \<Rightarrow> u8 \<Rightarrow> u8 \<Rightarrow> s16 \<Rightarrow> u16 \<Rightarrow> 'h prm_state \<Rightarrow> (int, 'h prm_state) outcome"
where
  "omap4_prminst_deassert_hardreset K io shift part inst rstctrl_offs s =
     (let msk = reset_mask shift;
          rstst_offs = rstctrl_offs + OMAP4_RST_CTRL_ST_OFFSET
      in case omap4_prminst_is_hardreset_asserted K io shift part inst rstctrl_offs s of
           Crash s' \<Rightarrow> Crash s'
         | Ret a s1 \<Rightarrow>
             if a = 0 then Ret (- EEXIST) s1
             else
               (case omap4_prminst_rmw_inst_reg_bits K io 0xffffffff msk part inst rstst_offs s1 of
                  Crash s' \<Rightarrow> Crash s'
                | Ret _ s2 \<Rightarrow>
                    (case omap4_prminst_rmw_inst_reg_bits K io msk 0 part inst rstctrl_offs s2 of
                       Crash s' \<Rightarrow> Crash s'
                     | Ret _ s3 \<Rightarrow>
                         (case omap_test_timeout
                                 (as_cond (omap4_prminst_is_hardreset_asserted K io shift part inst
                                             rstst_offs))
                                 (prm_udelay io 1) (MAX_MODULE_HARDRESET_WAIT K) 0 s3 of
                            Crash s' \<Rightarrow> Crash s'
                          | Ret c s4 \<Rightarrow>
                              Ret (if c = MAX_MODULE_HARDRESET_WAIT K then - EBUSY else 0) s4))))"

section \<open>The voltage processor (vp.c)\<close>

subsection \<open>Data\<close>

text \<open>
  The structures of \<^verbatim>\<open>voltage.h\<close> and \<^verbatim>\<open>vp.h\<close>, as far as \<^verbatim>\<open>vp.c\<close> reads or writes their
  fields.  The headers are not among the sources at hand; the field widths are those of a
  32-bit ARM build, where \<^verbatim>\<open>unsigned long\<close> has 32 bits and \<^verbatim>\<open>char\<close> is unsigned.  Register
  offsets and the VP id are bytes.

  Four fields are renamed: the accessor \<^verbatim>\<open>write\<close> of a domain is \<open>write'\<close>, the id of a
  VP instance is \<open>vp_id\<close>, the bounds \<^verbatim>\<open>vddmin\<close> and \<^verbatim>\<open>vddmax\<close> of the PMIC are
  \<open>pmic_vddmin\<close> and \<open>pmic_vddmax\<close> (the VP parameter block has fields of the same names),
  and \<^verbatim>\<open>sys_clk.rate\<close> of a domain is \<open>sys_clk_rate\<close>.

  A pointer that the source tests against NULL somewhere is an \<open>option\<close>; \<open>None\<close> is the
  NULL pointer.  \<^verbatim>\<open>IS_ERR_OR_NULL(p)\<close> and \<^verbatim>\<open>!p\<close> are both \<open>p = None\<close>: a pointer is either
  absent or valid, and error-encoded pointers are not told apart from NULL.  Pointers the
  source never tests (\<^verbatim>\<open>vp->common\<close>, \<^verbatim>\<open>common->ops\<close>, \<^verbatim>\<open>ops->check_txdone\<close>,
  \<^verbatim>\<open>ops->clear_txdone\<close>) are plain fields.

  The hardware and the voltage controller behind the function pointers are a parameter: a
  state \<open>'w\<close> that each call may read and change.
\<close>

record 'w omap_vp_ops =
  check_txdone :: "u8 \<Rightarrow> 'w \<Rightarrow> u32 \<times> 'w"
  clear_txdone :: "u8 \<Rightarrow> 'w \<Rightarrow> 'w"
  recover :: "(u8 \<Rightarrow> 'w \<Rightarrow> 'w) option"

record 'w omap_vp_common =
  vpconfig_erroroffset_mask :: u32
  vpconfig_errorgain_mask :: u32
  vpconfig_initvoltage_mask :: u32
  vpconfig_timeouten :: u32
  vpconfig_initvdd :: u32
  vpconfig_forceupdate :: u32
  vpconfig_vpenable :: u32
  vstatus_vpidle :: u32
  vstepmin_smpswaittimemin_shift :: u8
  vstepmin_stepmin_shift :: u8
  vstepmax_smpswaittimemax_shift :: u8
  vstepmax_stepmax_shift :: u8
  vlimitto_vddmin_shift :: u8
  vlimitto_vddmax_shift :: u8
  vlimitto_timeout_shift :: u8
  ops :: "'w omap_vp_ops"

record 'w omap_vp_instance =
  common :: "'w omap_vp_common"
  vpconfig :: u8
  vstepmin :: u8
  vstepmax :: u8
  vlimitto :: u8
  vstatus :: u8
  vp_id :: u8
  enabled :: bool

record omap_voltdm_pmic =
  slew_rate :: u32
  step_size :: u32
  vp_erroroffset :: u8
  vp_vstepmin :: u8
  vp_vstepmax :: u8
  pmic_vddmin :: u32
  pmic_vddmax :: u32
  vp_timeout_us :: u32
  uv_to_vsel :: "(u32 \<Rightarrow> u8) option"

record omap_vc_param =
  ret :: u32

record omap_vp_param =
  vddmin :: u32
  vddmax :: u32

record omap_volt_data =
  volt_nominal :: u32
  vp_errgain :: u8

record 'w voltagedomain =
  read :: "(u8 \<Rightarrow> 'w \<Rightarrow> u32 \<times> 'w) option"
  write' :: "(u32 \<Rightarrow> u8 \<Rightarrow> 'w \<Rightarrow> 'w) option"
  rmw :: "(u32 \<Rightarrow> u32 \<Rightarrow> u8 \<Rightarrow> 'w \<Rightarrow> u32 \<times> 'w) option"
  vp :: "'w omap_vp_instance option"
  pmic :: "omap_voltdm_pmic option"
  vc_param :: "omap_vc_param option"
  vp_param :: "omap_vp_param option"
  sys_clk_rate :: u32

text \<open>
  What \<^verbatim>\<open>vp.c\<close> takes from elsewhere, as parameters: the two polling budgets of \<^verbatim>\<open>vp.h\<close>,
  the bit search \<^verbatim>\<open>__ffs\<close>, \<^verbatim>\<open>udelay\<close>, and the calls into the voltage layer and the
  voltage controller.  \<open>omap_vc_pre_scale\<close> returns its status together with the two
  selectors it stores through its out-parameters.
\<close>

record 'w vp_env =
  VP_IDLE_TIMEOUT :: nat
  VP_TRANXDONE_TIMEOUT :: nat
  ffs :: "u32 \<Rightarrow> nat"
  udelay :: "nat \<Rightarrow> 'w \<Rightarrow> 'w"
  omap_get_operation_voltage :: "omap_volt_data \<Rightarrow> u32"
  omap_voltage_get_curr_vdata :: "'w voltagedomain \<Rightarrow> 'w \<Rightarrow> omap_volt_data option"
  omap_vc_pre_scale ::
    "'w voltagedomain \<Rightarrow> u32 \<Rightarrow> omap_volt_data \<Rightarrow> 'w \<Rightarrow> (int \<times> u8 \<times> u8) \<times> 'w"
  omap_vc_post_scale ::
    "'w voltagedomain \<Rightarrow> u32 \<Rightarrow> omap_volt_data \<Rightarrow> u8 \<Rightarrow> u8 \<Rightarrow> 'w \<Rightarrow> 'w"

text \<open>
  What the VP code does to the outside, in order: register accesses through the accessors
  of the domain, calls of the transaction-done and recovery callbacks, calls of the two
  scaling hooks, delays, and the two kinds of report of the controlled error path (with a
  stack dump, or rate limited).  \<open>PreScale v r t c\<close> records a call for the voltage \<open>v\<close> that
  returned \<open>r\<close> and the selectors \<open>t\<close> and \<open>c\<close>.  Plain log lines are not recorded.
\<close>

datatype vp_event =
    Read u8
  | Write u32 u8
  | Rmw u32 u32 u8
  | CheckTxdone u8
  | ClearTxdone u8
  | Recover u8
  | PreScale u32 int u8 u8
  | PostScale u32 u8 u8
  | Udelay nat
  | ErrDump
  | ErrRatelimited

fun is_write :: "vp_event \<Rightarrow> bool" where
  "is_write (Write v a) = True"
| "is_write e = False"

fun is_post_scale :: "vp_event \<Rightarrow> bool" where
  "is_post_scale (PostScale v t c) = True"
| "is_post_scale e = False"

fun is_err :: "vp_event \<Rightarrow> bool" where
  "is_err ErrDump = True"
| "is_err ErrRatelimited = True"
| "is_err e = False"


text \<open>Events that are neither a register write, nor the post-scale hook, nor an error
  report.\<close>

definition vp_silent :: "vp_event \<Rightarrow> bool" where
  "vp_silent e \<longleftrightarrow> \<not> is_write e \<and> \<not> is_post_scale e \<and> \<not> is_err e"

text \<open>
  The state: the outside world, the events so far (oldest first), and the two static
  counters of the controlled error path.
\<close>

record 'w vp_state =
  world :: 'w
  events :: "vp_event list"
  vp_debug_error_message_count :: u8
  vp_recover_count :: u8

definition MAX_RETRIES_BEFORE_RECOVER :: u8 where
  "MAX_RETRIES_BEFORE_RECOVER = 50"

definition MAX_COUNT_ERR :: u8 where
  "MAX_COUNT_ERR = 10"

text \<open>The state at boot: the static initialisers of the two counters, nothing done yet.\<close>

definition vp_boot :: "'w \<Rightarrow> 'w vp_state" where
  "vp_boot w = \<lparr>world = w, events = [], vp_debug_error_message_count = MAX_COUNT_ERR,
                vp_recover_count = MAX_RETRIES_BEFORE_RECOVER\<rparr>"

subsection \<open>Calls to the outside\<close>

definition call_read :: "(u8 \<Rightarrow> 'w \<Rightarrow> u32 \<times> 'w) \<Rightarrow> u8 \<Rightarrow> 'w vp_state \<Rightarrow> u32 \<times> 'w vp_state" where
  "call_read rd a s =
     (fst (rd a (world s)), s\<lparr>world := snd (rd a (world s)), events := events s @ [Read a]\<rparr>)"

definition call_write :: "(u32 \<Rightarrow> u8 \<Rightarrow> 'w \<Rightarrow> 'w) \<Rightarrow> u32 \<Rightarrow> u8 \<Rightarrow> 'w vp_state \<Rightarrow> 'w vp_state" where
  "call_write wr v a s = s\<lparr>world := wr v a (world s), events := events s @ [Write v a]\<rparr>"

definition call_rmw ::
  "(u32 \<Rightarrow> u32 \<Rightarrow> u8 \<Rightarrow> 'w \<Rightarrow> u32 \<times> 'w) \<Rightarrow> u32 \<Rightarrow> u32 \<Rightarrow> u8 \<Rightarrow> 'w vp_state \<Rightarrow> u32 \<times> 'w vp_state"
where
  "call_rmw f m b a s =
     (fst (f m b a (world s)), s\<lparr>world := snd (f m b a (world s)), events := events s @ [Rmw m b a]\<rparr>)"

definition call_check_txdone :: "'w omap_vp_instance \<Rightarrow> 'w vp_state \<Rightarrow> u32 \<times> 'w vp_state" where
  "call_check_txdone vpi s =
     (fst (check_txdone (ops (common vpi)) (vp_id vpi) (world s)),
      s\<lparr>world := snd (check_txdone (ops (common vpi)) (vp_id vpi) (world s)),
        events := events s @ [CheckTxdone (vp_id vpi)]\<rparr>)"

definition call_clear_txdone :: "'w omap_vp_instance \<Rightarrow> 'w vp_state \<Rightarrow> 'w vp_state" where
  "call_clear_txdone vpi s =
     s\<lparr>world := clear_txdone (ops (common vpi)) (vp_id vpi) (world s),
       events := events s @ [ClearTxdone (vp_id vpi)]\<rparr>"

definition call_udelay :: "'w vp_env \<Rightarrow> nat \<Rightarrow> 'w vp_state \<Rightarrow> 'w vp_state" where
  "call_udelay E n s = s\<lparr>world := udelay E n (world s), events := events s @ [Udelay n]\<rparr>"

definition call_pre_scale ::
  "'w vp_env \<Rightarrow> 'w voltagedomain \<Rightarrow> u32 \<Rightarrow> omap_volt_data \<Rightarrow> 'w vp_state \<Rightarrow>
     (int \<times> u8 \<times> u8) \<times> 'w vp_state"
where
  "call_pre_scale E voltdm target_volt target_v s =
     (case omap_vc_pre_scale E voltdm target_volt target_v (world s) of
        ((r, target_vsel, current_vsel), w') \<Rightarrow>
          ((r, target_vsel, current_vsel),
           s\<lparr>world := w', events := events s @ [PreScale target_volt r target_vsel current_vsel]\<rparr>))"

definition call_post_scale ::
  "'w vp_env \<Rightarrow> 'w voltagedomain \<Rightarrow> u32 \<Rightarrow> omap_volt_data \<Rightarrow> u8 \<Rightarrow> u8 \<Rightarrow> 'w vp_state \<Rightarrow>
     'w vp_state"
where
  "call_post_scale E voltdm target_volt target_v target_vsel current_vsel s =
     s\<lparr>world := omap_vc_post_scale E voltdm target_volt target_v target_vsel current_vsel (world s),
       events := events s @ [PostScale target_volt target_vsel current_vsel]\<rparr>"

subsection \<open>Helpers\<close>


text \<open>
  \<^verbatim>\<open>_vp_wait_for_idle\<close>: poll the idle bit of the status register.  The accessor
  \<^verbatim>\<open>voltdm->read\<close> is called without a test; a NULL accessor stops the kernel.
\<close>

definition vp_idle_cond ::
  "(u8 \<Rightarrow> 'w \<Rightarrow> u32 \<times> 'w) \<Rightarrow> 'w omap_vp_instance \<Rightarrow> 'w vp_state \<Rightarrow> (bool, 'w vp_state) outcome"
where
  "vp_idle_cond rd vpi s =
     Ret (fst (call_read rd (vstatus vpi) s) AND vstatus_vpidle (common vpi) \<noteq> 0)
         (snd (call_read rd (vstatus vpi) s))"

definition vp_wait_for_idle ::
  "'w vp_env \<Rightarrow> 'w voltagedomain \<Rightarrow> 'w omap_vp_instance \<Rightarrow> 'w vp_state \<Rightarrow>
     (int, 'w vp_state) outcome"
where
  "vp_wait_for_idle E voltdm vpi s =
     (case read voltdm of
        None \<Rightarrow> Crash s
      | Some rd \<Rightarrow>
          (case omap_test_timeout (vp_idle_cond rd vpi) (call_udelay E 1) (VP_IDLE_TIMEOUT E) 0 s of
             Crash s' \<Rightarrow> Crash s'
           | Ret timeout s' \<Rightarrow>
               if timeout \<ge> VP_IDLE_TIMEOUT E then Ret (- ETIMEDOUT) s' else Ret 0 s'))"

text \<open>
  \<^verbatim>\<open>_vp_set_init_voltage\<close>.  Its callers have tested \<^verbatim>\<open>voltdm->vp\<close>; the PMIC, its
  conversion function and the two accessors are used as they are.  The value it composes
  from the configuration register and the selector,
  \<^verbatim>\<open>vpconfig &= ~(initvoltage_mask | forceupdate | initvdd); vpconfig |= vsel << __ffs(initvoltage_mask)\<close>,
  is \<open>vpconfig_initvoltage\<close>.
\<close>

definition vpconfig_initvoltage :: "'w vp_env \<Rightarrow> 'w omap_vp_common \<Rightarrow> u32 \<Rightarrow> u8 \<Rightarrow> u32" where
  "vpconfig_initvoltage E c vpconfig0 vsel =
     (vpconfig0 AND NOT (vpconfig_initvoltage_mask c OR vpconfig_forceupdate c OR vpconfig_initvdd c))
     OR push_bit (ffs E (vpconfig_initvoltage_mask c)) (ucast vsel)"

definition vp_set_init_voltage ::
  "'w vp_env \<Rightarrow> 'w voltagedomain \<Rightarrow> u32 \<Rightarrow> 'w vp_state \<Rightarrow> (u32, 'w vp_state) outcome"
where
  "vp_set_init_voltage E voltdm volt s =
     (case vp voltdm of
        None \<Rightarrow> Crash s
      | Some vpi \<Rightarrow>
     (case pmic voltdm of
        None \<Rightarrow> Crash s
      | Some p \<Rightarrow>
     (case uv_to_vsel p of
        None \<Rightarrow> Crash s
      | Some uv \<Rightarrow>
     (case read voltdm of
        None \<Rightarrow> Crash s
      | Some rd \<Rightarrow>
          let vsel = uv volt;
              vpconfig0 = fst (call_read rd (vpconfig vpi) s);
              s1 = snd (call_read rd (vpconfig vpi) s);
              vpconfig2 = vpconfig_initvoltage E (common vpi) vpconfig0 vsel
          in (case write' voltdm of
                None \<Rightarrow> Crash s1
              | Some wr \<Rightarrow>
                  let s2 = call_write wr vpconfig2 (vpconfig vpi) s1;
                      s3 = call_write wr (vpconfig2 OR vpconfig_initvdd (common vpi)) (vpconfig vpi) s2;
                      s4 = call_write wr vpconfig2 (vpconfig vpi) s3
                  in Ret vpconfig2 s4)))))"

subsection \<open>Initialisation\<close>


subsection \<open>Error gain\<close>

definition omap_vp_update_errorgain ::
  "'w vp_env \<Rightarrow> 'w voltagedomain option \<Rightarrow> omap_volt_data option \<Rightarrow> 'w vp_state \<Rightarrow>
     int \<times> 'w vp_state"
where
  "omap_vp_update_errorgain E voltdm_p volt_data_p s =
     (case voltdm_p of
        None \<Rightarrow> (0, s)
      | Some voltdm \<Rightarrow>
     (case vp voltdm of
        None \<Rightarrow> (- EINVAL, s)
      | Some vpi \<Rightarrow>
     (case volt_data_p of
        None \<Rightarrow> (- EINVAL, s)
      | Some volt_data \<Rightarrow>
     (case rmw voltdm of
        None \<Rightarrow> (0, s)
      | Some f \<Rightarrow>
          (0, snd (call_rmw f (vpconfig_errorgain_mask (common vpi))
                     (push_bit (ffs E (vpconfig_errorgain_mask (common vpi)))
                        (ucast (vp_errgain volt_data)))
                     (vpconfig vpi) s))))))"

subsection \<open>The controlled error path\<close>

text \<open>
  The macro \<^verbatim>\<open>_vp_controlled_err\<close>.  The recovery counter is decremented only when the
  domain has a recovery callback, because \<^verbatim>\<open>&&\<close> evaluates its right operand only then.
\<close>

definition vp_controlled_err :: "'w omap_vp_instance \<Rightarrow> 'w vp_state \<Rightarrow> 'w vp_state" where
  "vp_controlled_err vpi s =
     (let s1 = (if vp_debug_error_message_count s \<noteq> 0
                then s\<lparr>events := events s @ [ErrDump],
                       vp_debug_error_message_count := vp_debug_error_message_count s - 1\<rparr>
                else s\<lparr>events := events s @ [ErrRatelimited]\<rparr>)
      in case recover (ops (common vpi)) of
           None \<Rightarrow> s1
         | Some rc \<Rightarrow>
             let s2 = s1\<lparr>vp_recover_count := vp_recover_count s1 - 1\<rparr>
             in if vp_recover_count s2 = 0
                then s2\<lparr>world := rc (vp_id vpi) (world s2),
                        events := events s2 @ [Recover (vp_id vpi)],
                        vp_recover_count := MAX_RETRIES_BEFORE_RECOVER\<rparr>
                else s2)"


subsection \<open>Force update\<close>

text \<open>
  The loop that clears a pending transaction-done status, which \<^verbatim>\<open>omap_vp_forceupdate_scale\<close>
  contains twice:
  \<^verbatim>\<open>while (timeout++ < VP_TRANXDONE_TIMEOUT) { clear; if (!check) break; udelay(1); }\<close>
  The counter is incremented by every test of the loop condition, also by the one that
  ends the loop.  The result is the counter after the loop.
\<close>

function vp_clear_txdone_loop ::
  "'w vp_env \<Rightarrow> 'w omap_vp_instance \<Rightarrow> nat \<Rightarrow> 'w vp_state \<Rightarrow> nat \<times> 'w vp_state"
where
  "vp_clear_txdone_loop E vpi timeout s =
     (if timeout < VP_TRANXDONE_TIMEOUT E then
        if fst (call_check_txdone vpi (call_clear_txdone vpi s)) = 0
        then (timeout + 1, snd (call_check_txdone vpi (call_clear_txdone vpi s)))
        else vp_clear_txdone_loop E vpi (timeout + 1)
               (call_udelay E 1 (snd (call_check_txdone vpi (call_clear_txdone vpi s))))
      else (timeout + 1, s))"
  by pat_completeness auto
termination
  by (relation "measure (\<lambda>(E, vpi, timeout, s). VP_TRANXDONE_TIMEOUT E - timeout)") auto

declare vp_clear_txdone_loop.simps [simp del]

text \<open>
  One pass through the body of that loop, seen as a poll: clear the status, then check it;
  the pass succeeds when the status then reads as 0.
\<close>

definition vp_clear_attempt :: "'w omap_vp_instance \<Rightarrow> 'w vp_state \<Rightarrow> (bool, 'w vp_state) outcome" where
  "vp_clear_attempt vpi s =
     Ret (fst (call_check_txdone vpi (call_clear_txdone vpi s)) = 0)
         (snd (call_check_txdone vpi (call_clear_txdone vpi s)))"

definition vp_txdone_cond :: "'w omap_vp_instance \<Rightarrow> 'w vp_state \<Rightarrow> (bool, 'w vp_state) outcome" where
  "vp_txdone_cond vpi s =
     Ret (fst (call_check_txdone vpi s) \<noteq> 0) (snd (call_check_txdone vpi s))"

definition omap_vp_forceupdate_scale ::
  "'w vp_env \<Rightarrow> 'w voltagedomain option \<Rightarrow> omap_volt_data option \<Rightarrow> 'w vp_state \<Rightarrow>
     (int, 'w vp_state) outcome"
where
  "omap_vp_forceupdate_scale E voltdm_p target_v_p s =
     (case voltdm_p of
        None \<Rightarrow> Ret (- EINVAL) s
      | Some voltdm \<Rightarrow>
     (case write' voltdm of
        None \<Rightarrow> Ret (- EINVAL) s
      | Some wr \<Rightarrow>
     (case target_v_p of
        None \<Rightarrow> Ret (- EINVAL) s
      | Some target_v \<Rightarrow>
     (case vp voltdm of
        None \<Rightarrow> Ret (- EINVAL) s
      | Some vpi \<Rightarrow>
          let target_volt = omap_get_operation_voltage E target_v
          in (case vp_wait_for_idle E voltdm vpi s of
                Crash s' \<Rightarrow> Crash s'
              | Ret r s1 \<Rightarrow>
                  if r \<noteq> 0 then Ret r (vp_controlled_err vpi s1)
                  else
                    (case call_pre_scale E voltdm target_volt target_v s1 of
                       ((r, target_vsel, current_vsel), s2) \<Rightarrow>
                         if r \<noteq> 0 then Ret r s2
                         else
                           (case vp_clear_txdone_loop E vpi 0 s2 of
                              (timeout, s3) \<Rightarrow>
                                if timeout \<ge> VP_TRANXDONE_TIMEOUT E
                                then Ret (- ETIMEDOUT) (vp_controlled_err vpi s3)
                                else
                                  (case vp_set_init_voltage E voltdm target_volt s3 of
                                     Crash s' \<Rightarrow> Crash s'
                                   | Ret vpconfig' s4 \<Rightarrow>
                                       let s5 = call_write wr
                                                  (vpconfig' OR vpconfig_forceupdate (common vpi))
                                                  (vpconfig vpi) s4
                                       in (case omap_test_timeout (vp_txdone_cond vpi)
                                                  (call_udelay E 1) (VP_TRANXDONE_TIMEOUT E) 0 s5 of
                                             Crash s' \<Rightarrow> Crash s'
                                           | Ret timeout s6 \<Rightarrow>
                                               let s7 = (if timeout \<ge> VP_TRANXDONE_TIMEOUT E
                                                         then vp_controlled_err vpi s6 else s6);
                                                   s8 = call_post_scale E voltdm target_volt target_v
                                                          target_vsel current_vsel s7
                                               in (case vp_clear_txdone_loop E vpi 0 s8 of
                                                     (timeout, s9) \<Rightarrow>
                                                       let s10 = (if timeout \<ge> VP_TRANXDONE_TIMEOUT E
                                                                  then vp_controlled_err vpi s9
                                                                  else s9);
                                                           s11 = call_write wr vpconfig'
                                                                   (vpconfig vpi) s10
                                                       in Ret 0 s11))))))))))"

subsection \<open>Enabling\<close>

text \<open>
  \<^verbatim>\<open>omap_vp_enable\<close>.  The function returns nothing; the model returns the domain, whose VP
  instance the function may mark as enabled.
\<close>

definition omap_vp_enable ::
  "'w vp_env \<Rightarrow> 'w voltagedomain option \<Rightarrow> 'w vp_state \<Rightarrow>
     ('w voltagedomain option, 'w vp_state) outcome"
where
  "omap_vp_enable E voltdm_p s =
     (case voltdm_p of
        None \<Rightarrow> Ret None s
      | Some voltdm \<Rightarrow>
     (case vp voltdm of
        None \<Rightarrow> Ret (Some voltdm) s
      | Some vpi \<Rightarrow>
     (case read voltdm of
        None \<Rightarrow> Ret (Some voltdm) s
      | Some rd \<Rightarrow>
     (case write' voltdm of
        None \<Rightarrow> Ret (Some voltdm) s
      | Some wr \<Rightarrow>
          if enabled vpi then Ret (Some voltdm) s
          else
            (case omap_voltage_get_curr_vdata E voltdm (world s) of
               None \<Rightarrow> Ret (Some voltdm) s
             | Some volt \<Rightarrow>
                 (case vp_set_init_voltage E voltdm (omap_get_operation_voltage E volt) s of
                    Crash s' \<Rightarrow> Crash s'
                  | Ret vpconfig0 s1 \<Rightarrow>
                      let vpconfig1 = vpconfig0 OR vpconfig_vpenable (common vpi);
                          s2 = call_write wr vpconfig1 (vpconfig vpi) s1
                      in Ret (Some (voltdm\<lparr>vp := Some (vpi\<lparr>enabled := True\<rparr>)\<rparr>)) s2))))))"

section \<open>Concrete devices\<close>

text \<open>
  A simulated reset line.  The line is the bit \<open>shift\<close> of the control register at
  \<open>ctrl\<close>; its status bit lives in the register at \<open>st\<close>.  While the control bit is set
  the line is held in reset and the status register reads as stored.  Once the control
  bit is clear, the line needs \<open>N\<close> polls of the status register: the poll number \<open>N\<close>
  is the first that reads the status bit as set, the polls before it read it as clear, and
  \<open>sim_polls\<close> counts the polls that read it as clear.  A write to the status register
  clears the bits written as 1; a write to the control register restarts the poll count.
\<close>

record reset_sim =
  sim_regs :: "u32 \<Rightarrow> u32"
  sim_polls :: nat

definition reset_sim_mmio :: "u32 \<Rightarrow> u32 \<Rightarrow> u8 \<Rightarrow> nat \<Rightarrow> reset_sim mmio" where
  "reset_sim_mmio ctrl st shift N =
     \<lparr>raw_readl = (\<lambda>a h.
        if a = st then
          (if bit (sim_regs h ctrl) (unat shift) then (sim_regs h st, h)
           else if N \<le> sim_polls h + 1 then (sim_regs h st OR reset_mask shift, h)
           else (sim_regs h st AND NOT (reset_mask shift), h\<lparr>sim_polls := sim_polls h + 1\<rparr>))
        else (sim_regs h a, h)),
      raw_writel = (\<lambda>v a h.
        if a = st then h\<lparr>sim_regs := (sim_regs h)(st := sim_regs h st AND NOT v)\<rparr>
        else if a = ctrl then h\<lparr>sim_regs := (sim_regs h)(ctrl := v), sim_polls := 0\<rparr>
        else h\<lparr>sim_regs := (sim_regs h)(a := v)\<rparr>),
      udelay_hw = (\<lambda>n h. h)\<rparr>"

text \<open>A register file without side effects, and the partition numbers of an OMAP4430
  with a polling budget of 3, for evaluating the model on concrete inputs.\<close>

definition ram_mmio :: "(u32 \<Rightarrow> u32) mmio" where
  "ram_mmio = \<lparr>raw_readl = (\<lambda>a h. (h a, h)), raw_writel = (\<lambda>v a h. h(a := v)),
               udelay_hw = (\<lambda>n h. h)\<rparr>"

definition demo_consts :: prcm_consts where
  "demo_consts = \<lparr>OMAP4_MAX_PRCM_PARTITIONS = 6, OMAP4430_INVALID_PRCM_PARTITION = 0,
     OMAP4430_PRM_PARTITION = 1, OMAP4430_PRCM_MPU_PARTITION = 5, OMAP4430_SCRM_PARTITION = 4,
     MAX_MODULE_HARDRESET_WAIT = 3\<rparr>"

definition demo_bases :: "nat \<Rightarrow> u32" where
  "demo_bases = omap4_prm_base_init demo_consts
     \<lparr>prm = 0x4A306000, prcm_mpu = 0x48243000, scrm = 0x4A30A000\<rparr> (\<lambda>_. 0)"

text \<open>
  A voltage domain on a device that ignores its state, for evaluating the VP model: every register
  reads as 1 (which is the idle bit of the status register), the transaction-done status
  always reads as 0, and the hooks of the voltage controller succeed with the selectors
  \<open>0x10\<close> and \<open>0x20\<close>.  The budgets are 2 idle polls and 3 transaction-done polls.
\<close>

definition find_first_set :: "u32 \<Rightarrow> nat" where
  "find_first_set w = length (takeWhile (\<lambda>n. \<not> bit w n) [0..<32])"

definition demo_ops :: "'w omap_vp_ops" where
  "demo_ops = \<lparr>check_txdone = (\<lambda>i w. (0, w)), clear_txdone = (\<lambda>i w. w),
               recover = Some (\<lambda>i w. w)\<rparr>"

definition demo_common :: "'w omap_vp_common" where
  "demo_common =
     \<lparr>vpconfig_erroroffset_mask = 0xFF000000, vpconfig_errorgain_mask = 0x00FF0000,
      vpconfig_initvoltage_mask = 0x0000FF00, vpconfig_timeouten = 8, vpconfig_initvdd = 4,
      vpconfig_forceupdate = 2, vpconfig_vpenable = 1, vstatus_vpidle = 1,
      vstepmin_smpswaittimemin_shift = 8, vstepmin_stepmin_shift = 0,
      vstepmax_smpswaittimemax_shift = 8, vstepmax_stepmax_shift = 0,
      vlimitto_vddmin_shift = 16, vlimitto_vddmax_shift = 24, vlimitto_timeout_shift = 0,
      ops = demo_ops\<rparr>"

definition demo_vp :: "'w omap_vp_instance" where
  "demo_vp = \<lparr>common = demo_common, vpconfig = 0, vstepmin = 4, vstepmax = 8, vlimitto = 12,
              vstatus = 16, vp_id = 0, enabled = False\<rparr>"

definition demo_pmic :: omap_voltdm_pmic where
  "demo_pmic = \<lparr>slew_rate = 4000, step_size = 12660, vp_erroroffset = 0, vp_vstepmin = 1,
                vp_vstepmax = 4, pmic_vddmin = 600000, pmic_vddmax = 1450000, vp_timeout_us = 200,
                uv_to_vsel = Some (\<lambda>uv. ucast (uv div 12660))\<rparr>"

definition demo_voltdm :: "'w voltagedomain" where
  "demo_voltdm = \<lparr>read = Some (\<lambda>a w. (1, w)), write' = Some (\<lambda>v a w. w),
                  rmw = Some (\<lambda>m b a w. (b, w)), vp = Some demo_vp, pmic = Some demo_pmic,
                  vc_param = Some \<lparr>ret = 750000\<rparr>,
                  vp_param = Some \<lparr>vddmin = 700000, vddmax = 1500000\<rparr>,
                  sys_clk_rate = 38400000\<rparr>"

definition demo_volt :: omap_volt_data where
  "demo_volt = \<lparr>volt_nominal = 1266000, vp_errgain = 0x0C\<rparr>"

definition demo_env :: "'w vp_env" where
  "demo_env = \<lparr>VP_IDLE_TIMEOUT = 2, VP_TRANXDONE_TIMEOUT = 3, ffs = find_first_set,
               udelay = (\<lambda>n w. w), omap_get_operation_voltage = volt_nominal,
               omap_voltage_get_curr_vdata = (\<lambda>d w. Some demo_volt),
               omap_vc_pre_scale = (\<lambda>d v t w. ((0, 0x10, 0x20), w)),
               omap_vc_post_scale = (\<lambda>d v t a b w. w)\<rparr>"

text \<open>The same environment over a world that is one flag: the current-voltage lookup finds
  a descriptor only when the flag is set.\<close>

definition demo_env_lookup :: "bool vp_env" where
  "demo_env_lookup =
     demo_env\<lparr>omap_voltage_get_curr_vdata := (\<lambda>d w. if w then Some demo_volt else None)\<rparr>"

text \<open>
  The same domain on a device whose transaction-done status takes time to clear.  The
  world counts the status checks made so far: the first \<open>k\<close> checks read the status as
  pending (1), every later check reads it as clear (0).
\<close>

definition demo_pending_ops :: "nat \<Rightarrow> nat omap_vp_ops" where
  "demo_pending_ops k = \<lparr>check_txdone = (\<lambda>i w. (if w < k then 1 else 0, w + 1)),
                         clear_txdone = (\<lambda>i w. w), recover = Some (\<lambda>i w. w)\<rparr>"

definition demo_pending_vp :: "nat \<Rightarrow> nat omap_vp_instance" where
  "demo_pending_vp k = demo_vp\<lparr>common := demo_common\<lparr>ops := demo_pending_ops k\<rparr>\<rparr>"

definition demo_pending_voltdm :: "nat \<Rightarrow> nat voltagedomain" where
  "demo_pending_voltdm k = demo_voltdm\<lparr>vp := Some (demo_pending_vp k)\<rparr>"

section \<open>Properties of the PRM instance functions\<close>

subsection \<open>Auxiliary facts\<close>

lemma asserted_bit_value:
  "drop_bit n ((w::u32) AND push_bit n 1) = (if bit w n then 1 else 0)"
proof (rule bit_eqI)
  fix k
  show "bit (drop_bit n (w AND push_bit n 1)) k = bit (if bit w n then 1 else 0 :: u32) k"
    by (cases "k = 0") (auto simp: bit_simps dest: bit_imp_le_length)
qed

lemma is_hardreset_asserted_eq:
  "omap4_prminst_is_hardreset_asserted K io shift part inst offs s =
     (if prm_bug_on K (prm_bases s) part then Crash s
      else
        let a = prm_reg_addr (prm_bases s) part inst offs;
            r = raw_readl io a (hw s)
        in Ret (if bit (fst r) (unat shift) then 1 else 0)
               (s\<lparr>hw := snd r, bus := bus s @ [Readl a]\<rparr>))"
  unfolding omap4_prminst_is_hardreset_asserted_def omap4_prminst_read_inst_reg_def
    reset_mask_def Let_def asserted_bit_value
  by (simp split: prod.splits)

lemma rmw_eq:
  "omap4_prminst_rmw_inst_reg_bits K io msk bits part inst idx s =
     (if prm_bug_on K (prm_bases s) part then Crash s
      else
        let a = prm_reg_addr (prm_bases s) part inst idx;
            r = raw_readl io a (hw s);
            v = (fst r AND NOT msk) OR bits
        in Ret v (s\<lparr>hw := raw_writel io v a (snd r), bus := bus s @ [Readl a, Writel v a]\<rparr>))"
  by (simp add: omap4_prminst_rmw_inst_reg_bits_def omap4_prminst_read_inst_reg_def
      omap4_prminst_write_inst_reg_def Let_def split: prod.splits)

lemma rstst_poll_eq:
  "\<not> prm_bug_on K (prm_bases s) part \<Longrightarrow>
   as_cond (omap4_prminst_is_hardreset_asserted K io shift part inst offs) s =
     Ret (bit (fst (raw_readl io (prm_reg_addr (prm_bases s) part inst offs) (hw s))) (unat shift))
         (s\<lparr>hw := snd (raw_readl io (prm_reg_addr (prm_bases s) part inst offs) (hw s)),
            bus := bus s @ [Readl (prm_reg_addr (prm_bases s) part inst offs)]\<rparr>)"
  by (simp add: as_cond_def is_hardreset_asserted_eq Let_def)

lemma poll_bus:
  assumes "\<not> prm_bug_on K (prm_bases s) part" and "i \<le> T"
  shows "\<exists>c s' k. omap_test_timeout (as_cond (omap4_prminst_is_hardreset_asserted K io shift part inst offs)) (prm_udelay io 1) T i s
              = Ret c s' \<and>
            prm_bases s' = prm_bases s \<and>
            bus s' = bus s @ replicate k (Readl (prm_reg_addr (prm_bases s) part inst offs)) \<and>
            k \<le> T - i \<and> i \<le> c \<and> c \<le> T"
  using assms
proof (induction "T - i" arbitrary: i s)
  case 0
  then show ?case by (simp add: omap_test_timeout.simps)
next
  case (Suc n)
  let ?a = "prm_reg_addr (prm_bases s) part inst offs"
  let ?r = "raw_readl io ?a (hw s)"
  let ?s1 = "s\<lparr>hw := snd ?r, bus := bus s @ [Readl ?a]\<rparr>"
  have lt: "i < T" using Suc.hyps(2) by simp
  show ?case
  proof (cases "bit (fst ?r) (unat shift)")
    case True
    have "omap_test_timeout (as_cond (omap4_prminst_is_hardreset_asserted K io shift part inst offs)) (prm_udelay io 1) T i s
            = Ret i ?s1"
      using lt True Suc.prems
      by (subst omap_test_timeout.simps) (simp add: rstst_poll_eq)
    moreover have "bus ?s1 = bus s @ replicate 1 (Readl ?a)" by simp
    ultimately show ?thesis using lt
      by (intro exI[of _ i] exI[of _ ?s1] exI[of _ 1]) simp
  next
    case False
    let ?s2 = "prm_udelay io 1 ?s1"
    have step: "omap_test_timeout (as_cond (omap4_prminst_is_hardreset_asserted K io shift part inst offs)) (prm_udelay io 1) T i s
            = omap_test_timeout (as_cond (omap4_prminst_is_hardreset_asserted K io shift part inst offs)) (prm_udelay io 1) T (i + 1) ?s2"
      using lt False Suc.prems
      by (subst omap_test_timeout.simps) (simp add: rstst_poll_eq)
    have b2: "prm_bases ?s2 = prm_bases s" by (simp add: prm_udelay_def)
    have "n = T - (i + 1)" using Suc.hyps(2) by simp
    from Suc.hyps(1)[OF this, of ?s2] Suc.prems b2 lt
    obtain c s' k where
      r: "omap_test_timeout (as_cond (omap4_prminst_is_hardreset_asserted K io shift part inst offs)) (prm_udelay io 1) T (i + 1) ?s2
            = Ret c s'"
      and b: "prm_bases s' = prm_bases s"
      and t: "bus s' = bus ?s2 @ replicate k (Readl ?a)"
      and k: "k \<le> T - (i + 1)" and c: "i + 1 \<le> c" "c \<le> T"
      by auto
    have "bus s' = bus s @ replicate (Suc k) (Readl ?a)"
      using t by (simp add: prm_udelay_def)
    then show ?thesis using step r b k c lt
      by (intro exI[of _ c] exI[of _ s'] exI[of _ "Suc k"]) simp
  qed
qed

lemma bit_reset_mask: "bit (reset_mask shift) n \<longleftrightarrow> n = unat shift \<and> n < 32"
  by (auto simp: reset_mask_def bit_simps)

lemma ctrl_st_distinct:
  "prm_reg_addr b part inst (offs + OMAP4_RST_CTRL_ST_OFFSET) \<noteq> prm_reg_addr b part inst offs"
proof
  assume "prm_reg_addr b part inst (offs + OMAP4_RST_CTRL_ST_OFFSET) = prm_reg_addr b part inst offs"
  then have "(ucast (offs + 4) :: u32) = ucast offs"
    by (simp add: prm_reg_addr_def OMAP4_RST_CTRL_ST_OFFSET_def)
  then have "ucast (ucast (offs + 4) :: u32) = (ucast (ucast offs :: u32) :: u16)"
    by (rule arg_cong)
  moreover have up: "is_up (ucast :: u16 \<Rightarrow> u32)"
    by (simp add: is_up)
  ultimately have "offs + 4 = offs"
    by (simp only: ucast_up_ucast_id [OF up])
  then show False by simp
qed

lemma sim_poll_loop:
  fixes s :: "reset_sim prm_state"
  assumes "\<not> prm_bug_on K (prm_bases s) part" and "i \<le> T"
    and "st = prm_reg_addr (prm_bases s) part inst offs" and "st \<noteq> ctrl"
    and "\<not> bit (sim_regs (hw s) ctrl) (unat shift)" and "unat shift < 32"
    and "sim_polls (hw s) \<le> N - 1"
  shows "\<exists>s'. omap_test_timeout (as_cond (omap4_prminst_is_hardreset_asserted K
                   (reset_sim_mmio ctrl st shift N) shift part inst offs))
                 (prm_udelay (reset_sim_mmio ctrl st shift N) 1) T i s
           = Ret (if N - 1 - sim_polls (hw s) < T - i then i + (N - 1 - sim_polls (hw s)) else T) s'"
  using assms
proof (induction "T - i" arbitrary: i s)
  case 0
  then show ?case by (simp add: omap_test_timeout.simps)
next
  case (Suc n)
  let ?io = "reset_sim_mmio ctrl st shift N"
  have lt: "i < T" using Suc.hyps(2) by simp
  show ?case
  proof (cases "N \<le> sim_polls (hw s) + 1")
    case True
    then have "bit (fst (raw_readl ?io st (hw s))) (unat shift)"
      using Suc.prems by (simp add: reset_sim_mmio_def bit_simps bit_reset_mask)
    then show ?thesis using lt True Suc.prems
      by (subst omap_test_timeout.simps) (simp add: rstst_poll_eq)
  next
    case False
    let ?s1 = "s\<lparr>hw := snd (raw_readl ?io st (hw s)), bus := bus s @ [Readl st]\<rparr>"
    let ?s2 = "prm_udelay ?io 1 ?s1"
    have nb: "\<not> bit (fst (raw_readl ?io st (hw s))) (unat shift)"
      using Suc.prems False by (simp add: reset_sim_mmio_def bit_simps bit_reset_mask)
    have step: "omap_test_timeout (as_cond (omap4_prminst_is_hardreset_asserted K ?io shift part inst offs))
                  (prm_udelay ?io 1) T i s
            = omap_test_timeout (as_cond (omap4_prminst_is_hardreset_asserted K ?io shift part inst offs))
                  (prm_udelay ?io 1) T (i + 1) ?s2"
      using lt nb Suc.prems
      by (subst omap_test_timeout.simps) (simp add: rstst_poll_eq)
    have hw2: "hw ?s2 = (hw s)\<lparr>sim_polls := sim_polls (hw s) + 1\<rparr>"
      using Suc.prems False by (simp add: prm_udelay_def reset_sim_mmio_def)
    have b2: "prm_bases ?s2 = prm_bases s" by (simp add: prm_udelay_def)
    have n: "n = T - (i + 1)" using Suc.hyps(2) by simp
    have "\<exists>s'. omap_test_timeout (as_cond (omap4_prminst_is_hardreset_asserted K ?io shift part inst offs))
                  (prm_udelay ?io 1) T (i + 1) ?s2
           = Ret (if N - 1 - sim_polls (hw ?s2) < T - (i + 1) then (i + 1) + (N - 1 - sim_polls (hw ?s2)) else T) s'"
      using Suc.prems False lt b2 hw2
      by (intro Suc.hyps(1)[OF n]) simp_all
    then show ?thesis using step hw2 False lt by (auto split: if_splits)
  qed
qed

lemma reachable_bases_zero:
  assumes "prm_bases_after K gs p \<noteq> 0"
  shows "p = unat (OMAP4430_PRM_PARTITION K) \<or> p = unat (OMAP4430_PRCM_MPU_PARTITION K) \<or>
         p = unat (OMAP4430_SCRM_PARTITION K)"
  using assms
  by (induction gs rule: rev_induct)
     (auto simp: prm_bases_after_def omap4_prm_base_init_def split: if_splits)

lemma reachable_no_bug:
  assumes "prcm_consts_ok K" and "prm_bases_after K gs (unat part) \<noteq> 0"
  shows "\<not> prm_bug_on K (prm_bases_after K gs) part"
proof -
  from reachable_bases_zero [OF assms(2)]
  have "part = OMAP4430_PRM_PARTITION K \<or> part = OMAP4430_PRCM_MPU_PARTITION K \<or>
        part = OMAP4430_SCRM_PARTITION K"
    by (simp add: word_unat_eq_iff)
  then show ?thesis using assms
    by (auto simp: prm_bug_on_def prcm_consts_ok_def)
qed

lemma demo_consts_ok: "prcm_consts_ok demo_consts"
  by (simp add: prcm_consts_ok_def demo_consts_def)

lemma demo_bases_reachable:
  "demo_bases =
     prm_bases_after demo_consts [\<lparr>prm = 0x4A306000, prcm_mpu = 0x48243000, scrm = 0x4A30A000\<rparr>]"
  by (simp add: demo_bases_def prm_bases_after_def)

lemma minus_2p32: "(- 4294967296 :: u32) = 0"
  by simp

lemma deassert_generic:
  fixes s :: "'h prm_state"
  assumes nb: "\<not> prm_bug_on K (prm_bases s) part"
    and asserted: "bit (fst (raw_readl io (prm_reg_addr (prm_bases s) part inst offs) (hw s)))
                     (unat shift)"
  shows "\<exists>r s' v n.
           omap4_prminst_deassert_hardreset K io shift part inst offs s = Ret r s' \<and>
           bus s' = bus s @
             [Readl (prm_reg_addr (prm_bases s) part inst offs),
              Readl (prm_reg_addr (prm_bases s) part inst (offs + 4)),
              Writel (reset_mask shift) (prm_reg_addr (prm_bases s) part inst (offs + 4)),
              Readl (prm_reg_addr (prm_bases s) part inst offs),
              Writel (v AND NOT (reset_mask shift)) (prm_reg_addr (prm_bases s) part inst offs)] @
             replicate n (Readl (prm_reg_addr (prm_bases s) part inst (offs + 4))) \<and>
           n \<le> MAX_MODULE_HARDRESET_WAIT K \<and> (r = 0 \<or> r = - EBUSY)"
proof -
  let ?b = "prm_bases s"
  let ?ctrl = "prm_reg_addr ?b part inst offs"
  let ?st = "prm_reg_addr ?b part inst (offs + 4)"
  let ?r1 = "raw_readl io ?ctrl (hw s)"
  let ?s1 = "s\<lparr>hw := snd ?r1, bus := bus s @ [Readl ?ctrl]\<rparr>"
  let ?r2 = "raw_readl io ?st (hw ?s1)"
  let ?s2 = "?s1\<lparr>hw := raw_writel io (reset_mask shift) ?st (snd ?r2),
                 bus := bus ?s1 @ [Readl ?st, Writel (reset_mask shift) ?st]\<rparr>"
  let ?r3 = "raw_readl io ?ctrl (hw ?s2)"
  let ?v = "fst ?r3 AND NOT (reset_mask shift)"
  let ?s3 = "?s2\<lparr>hw := raw_writel io ?v ?ctrl (snd ?r3),
                 bus := bus ?s2 @ [Readl ?ctrl, Writel ?v ?ctrl]\<rparr>"
  have nb3: "\<not> prm_bug_on K (prm_bases ?s3) part" using nb by simp
  from poll_bus [OF nb3, of 0 "MAX_MODULE_HARDRESET_WAIT K" io shift inst "offs + 4"]
  obtain c s' k where
    loop: "omap_test_timeout (as_cond (omap4_prminst_is_hardreset_asserted K io shift part inst (offs + 4)))
             (prm_udelay io 1) (MAX_MODULE_HARDRESET_WAIT K) 0 ?s3 = Ret c s'"
    and tr: "bus s' = bus ?s3 @ replicate k (Readl ?st)"
    and k: "k \<le> MAX_MODULE_HARDRESET_WAIT K"
    by auto
  have "omap4_prminst_deassert_hardreset K io shift part inst offs s =
          Ret (if c = MAX_MODULE_HARDRESET_WAIT K then - EBUSY else 0) s'"
    using nb asserted loop
    by (simp add: omap4_prminst_deassert_hardreset_def is_hardreset_asserted_eq rmw_eq Let_def
        OMAP4_RST_CTRL_ST_OFFSET_def minus_2p32)
  moreover have "bus s' = bus s @ [Readl ?ctrl, Readl ?st, Writel (reset_mask shift) ?st,
                    Readl ?ctrl, Writel (fst ?r3 AND NOT (reset_mask shift)) ?ctrl] @
                    replicate k (Readl ?st)"
    using tr by simp
  ultimately show ?thesis using k
    by (intro exI[of _ "if c = MAX_MODULE_HARDRESET_WAIT K then - EBUSY else 0"] exI[of _ s']
        exI[of _ "fst ?r3"] exI[of _ k]) simp
qed

lemma deassert_sim:
  assumes nb: "\<not> prm_bug_on K b part"
    and ctrl: "ctrl = prm_reg_addr b part inst offs"
    and st: "st = prm_reg_addr b part inst (offs + 4)"
    and asserted: "bit (regs ctrl) (unat shift)"
  shows "\<exists>s'. omap4_prminst_deassert_hardreset K (reset_sim_mmio ctrl st shift N) shift part inst offs
                 \<lparr>prm_bases = b, hw = \<lparr>sim_regs = regs, sim_polls = p\<rparr>, bus = tr\<rparr> =
               Ret (if N - 1 < MAX_MODULE_HARDRESET_WAIT K then 0 else - EBUSY) s'"
proof -
  let ?io = "reset_sim_mmio ctrl st shift N"
  let ?s = "\<lparr>prm_bases = b, hw = \<lparr>sim_regs = regs, sim_polls = p\<rparr>, bus = tr\<rparr>"
  have ne: "st \<noteq> ctrl"
    using ctrl_st_distinct [of b part inst offs] ctrl st
    by (simp add: OMAP4_RST_CTRL_ST_OFFSET_def)
  have sh: "unat shift < 32"
    using asserted bit_imp_le_length [of "regs ctrl" "unat shift"] by simp
  let ?regs3 = "regs (st := regs st AND NOT (reset_mask shift),
                      ctrl := regs ctrl AND NOT (reset_mask shift))"
  let ?s3 = "\<lparr>prm_bases = b, hw = \<lparr>sim_regs = ?regs3, sim_polls = 0\<rparr>,
              bus = tr @ [Readl ctrl, Readl st, Writel (reset_mask shift) st, Readl ctrl,
                          Writel (regs ctrl AND NOT (reset_mask shift)) ctrl]\<rparr>"
  have clr: "\<not> bit (sim_regs (hw ?s3) ctrl) (unat shift)"
    using sh by (simp add: bit_simps bit_reset_mask)
  from sim_poll_loop [of K ?s3 part 0 "MAX_MODULE_HARDRESET_WAIT K" st inst "offs + 4" ctrl shift N]
  obtain s' where
    loop: "omap_test_timeout (as_cond (omap4_prminst_is_hardreset_asserted K ?io shift part inst (offs + 4)))
             (prm_udelay ?io 1) (MAX_MODULE_HARDRESET_WAIT K) 0 ?s3 =
           Ret (if N - 1 < MAX_MODULE_HARDRESET_WAIT K then N - 1 else MAX_MODULE_HARDRESET_WAIT K) s'"
    using nb st ne clr sh by auto
  have rd_ctrl: "raw_readl ?io ctrl h = (sim_regs h ctrl, h)" for h
    using ne by (simp add: reset_sim_mmio_def)
  have rd_st: "raw_readl ?io st \<lparr>sim_regs = regs, sim_polls = p\<rparr> =
                 (regs st, \<lparr>sim_regs = regs, sim_polls = p\<rparr>)"
    using asserted by (simp add: reset_sim_mmio_def)
  have wr_st: "raw_writel ?io v st h = h\<lparr>sim_regs := (sim_regs h)(st := sim_regs h st AND NOT v)\<rparr>"
    for v h
    by (simp add: reset_sim_mmio_def)
  have wr_ctrl: "raw_writel ?io v ctrl h = h\<lparr>sim_regs := (sim_regs h)(ctrl := v), sim_polls := 0\<rparr>"
    for v h
    using ne by (simp add: reset_sim_mmio_def)
  have w1c: "(x AND NOT 0xffffffff) OR m = m" for x m :: u32
    by (simp add: minus_2p32)
  have "omap4_prminst_deassert_hardreset K ?io shift part inst offs ?s =
          Ret (if N - 1 < MAX_MODULE_HARDRESET_WAIT K then 0 else - EBUSY) s'"
    using nb asserted ne loop
    by (simp add: omap4_prminst_deassert_hardreset_def is_hardreset_asserted_eq rmw_eq Let_def
        OMAP4_RST_CTRL_ST_OFFSET_def ctrl [symmetric] st [symmetric] rd_ctrl rd_st wr_st wr_ctrl
        minus_2p32)
  then show ?thesis by blast
qed

lemma demo_no_bug: "\<not> prm_bug_on demo_consts demo_bases 1"
  by (simp add: prm_bug_on_def demo_consts_def demo_bases_def omap4_prm_base_init_def)

subsection \<open>Read-modify-write\<close>

text \<open>
  Claim C4.  For every mask, bits and prior register value, the read-modify-write of a
  register in a usable partition reads the register once, writes
  \<open>(old AND NOT mask) OR bits\<close> back to the same address, and returns the value it wrote,
  where \<open>old\<close> is the value the read delivered.  In a partition that trips the assertion
  nothing is read or written.
\<close>

theorem rmw_inst_reg_bits_result:
  "omap4_prminst_rmw_inst_reg_bits K io msk bits part inst idx s =
     (if prm_bug_on K (prm_bases s) part then Crash s
      else
        let a = prm_reg_addr (prm_bases s) part inst idx;
            old = fst (raw_readl io a (hw s));
            h1 = snd (raw_readl io a (hw s));
            new = (old AND NOT msk) OR bits
        in Ret new (s\<lparr>hw := raw_writel io new a h1, bus := bus s @ [Readl a, Writel new a]\<rparr>))"
  by (simp add: rmw_eq Let_def)

subsection \<open>Deasserting a reset line\<close>

text \<open>
  Claim C5.  When the control bit of the reset line reads as not asserted, deassert
  returns \<open>-EEXIST\<close> (already deasserted); the only register access it makes is the one
  read of the control register that queries the line, so it writes no register.
\<close>

theorem deassert_hardreset_already_deasserted:
  assumes "\<not> bit (fst (raw_readl io (prm_reg_addr (prm_bases s) part inst rstctrl_offs) (hw s)))
               (unat shift)"
  shows "omap4_prminst_deassert_hardreset K io shift part inst rstctrl_offs s =
     (if prm_bug_on K (prm_bases s) part then Crash s
      else
        let a = prm_reg_addr (prm_bases s) part inst rstctrl_offs
        in Ret (- EEXIST) (s\<lparr>hw := snd (raw_readl io a (hw s)), bus := bus s @ [Readl a]\<rparr>))"
  using assms
  by (simp add: omap4_prminst_deassert_hardreset_def is_hardreset_asserted_eq Let_def)

theorem deassert_hardreset_already_deasserted_witness:
  "\<not> bit (fst (raw_readl ram_mmio (prm_reg_addr demo_bases 1 0x1B00 0x10) (\<lambda>_. 0))) (unat (2 :: u8)) \<and>
   omap4_prminst_deassert_hardreset demo_consts ram_mmio 2 1 0x1B00 0x10
       \<lparr>prm_bases = demo_bases, hw = (\<lambda>_. 0), bus = []\<rparr> =
     Ret (- 17) \<lparr>prm_bases = demo_bases, hw = (\<lambda>_. 0), bus = [Readl 0x4A307B10]\<rparr>"
proof -
  have h: "\<not> bit (fst (raw_readl ram_mmio
              (prm_reg_addr (prm_bases \<lparr>prm_bases = demo_bases, hw = (\<lambda>_. 0), bus = []\<rparr>) 1 0x1B00 0x10)
              (hw \<lparr>prm_bases = demo_bases, hw = (\<lambda>_. 0), bus = []\<rparr>))) (unat (2 :: u8))"
    by (simp add: ram_mmio_def)
  show ?thesis
    using deassert_hardreset_already_deasserted [OF h, of demo_consts]
    by (simp add: ram_mmio_def demo_bases_def demo_consts_def omap4_prm_base_init_def
        prm_bug_on_def prm_reg_addr_def EEXIST_def)
qed

text \<open>
  Claim C2.  When the control bit of the reset line reads as asserted, deassert makes
  these register accesses in this order, on any hardware: the query of the control
  register; a read of the status register at control offset + 4 followed by a write of
  the mask \<open>1 << shift\<close> to it (write 1 to clear); a read of the control register
  followed by a write of the value read with the bit \<open>shift\<close> cleared; then \<open>n\<close> polls of
  the status register, \<open>n\<close> at most the budget \<open>MAX_MODULE_HARDRESET_WAIT\<close>.  It returns
  either 0 or \<open>-EBUSY\<close>.  On the simulated line that needs \<open>N\<close> polls, where the poll
  number \<open>N\<close> is the first to read the status bit as set, the call returns 0 exactly when
  \<open>N\<close> is within the budget (\<open>N\<close> at most \<open>MAX_MODULE_HARDRESET_WAIT\<close>, that is, fewer
  polls than the budget read the bit as clear) and \<open>-EBUSY\<close> exactly when \<open>N\<close> exceeds it.
  The sum control offset + 4 is computed in 16 bits, as the source does.
\<close>

theorem deassert_hardreset_asserted:
  assumes "\<not> prm_bug_on K b part"
  shows
    "(\<forall>(io :: 'h mmio) (s :: 'h prm_state).
        prm_bases s = b \<longrightarrow>
        bit (fst (raw_readl io (prm_reg_addr b part inst offs) (hw s))) (unat shift) \<longrightarrow>
        (\<exists>r s' v n.
           omap4_prminst_deassert_hardreset K io shift part inst offs s = Ret r s' \<and>
           bus s' = bus s @
             [Readl (prm_reg_addr b part inst offs),
              Readl (prm_reg_addr b part inst (offs + 4)),
              Writel (reset_mask shift) (prm_reg_addr b part inst (offs + 4)),
              Readl (prm_reg_addr b part inst offs),
              Writel (v AND NOT (reset_mask shift)) (prm_reg_addr b part inst offs)] @
             replicate n (Readl (prm_reg_addr b part inst (offs + 4))) \<and>
           n \<le> MAX_MODULE_HARDRESET_WAIT K \<and> (r = 0 \<or> r = - EBUSY))) \<and>
     (\<forall>N regs p tr.
        0 < N \<longrightarrow>
        bit (regs (prm_reg_addr b part inst offs)) (unat shift) \<longrightarrow>
        (\<exists>r s'.
           omap4_prminst_deassert_hardreset K
               (reset_sim_mmio (prm_reg_addr b part inst offs)
                  (prm_reg_addr b part inst (offs + 4)) shift N)
               shift part inst offs
               \<lparr>prm_bases = b, hw = \<lparr>sim_regs = regs, sim_polls = p\<rparr>, bus = tr\<rparr> = Ret r s' \<and>
           (r = 0 \<longleftrightarrow> N \<le> MAX_MODULE_HARDRESET_WAIT K) \<and>
           (r = - EBUSY \<longleftrightarrow> MAX_MODULE_HARDRESET_WAIT K < N)))"
proof (intro conjI allI impI)
  fix io :: "'h mmio" and s :: "'h prm_state"
  assume "prm_bases s = b"
    and "bit (fst (raw_readl io (prm_reg_addr b part inst offs) (hw s))) (unat shift)"
  then show "\<exists>r s' v n.
           omap4_prminst_deassert_hardreset K io shift part inst offs s = Ret r s' \<and>
           bus s' = bus s @
             [Readl (prm_reg_addr b part inst offs),
              Readl (prm_reg_addr b part inst (offs + 4)),
              Writel (reset_mask shift) (prm_reg_addr b part inst (offs + 4)),
              Readl (prm_reg_addr b part inst offs),
              Writel (v AND NOT (reset_mask shift)) (prm_reg_addr b part inst offs)] @
             replicate n (Readl (prm_reg_addr b part inst (offs + 4))) \<and>
           n \<le> MAX_MODULE_HARDRESET_WAIT K \<and> (r = 0 \<or> r = - EBUSY)"
    using deassert_generic [of K s part io inst offs shift] assms by blast
next
  fix N p :: nat and regs :: "u32 \<Rightarrow> u32" and tr :: "access list"
  assume pos: "0 < N"
  assume "bit (regs (prm_reg_addr b part inst offs)) (unat shift)"
  with assms deassert_sim [where K = K and b = b and part = part and inst = inst and offs = offs
      and ctrl = "prm_reg_addr b part inst offs" and st = "prm_reg_addr b part inst (offs + 4)"
      and regs = regs and shift = shift and N = N and p = p and tr = tr]
  obtain s' where
    "omap4_prminst_deassert_hardreset K
               (reset_sim_mmio (prm_reg_addr b part inst offs)
                  (prm_reg_addr b part inst (offs + 4)) shift N)
               shift part inst offs
               \<lparr>prm_bases = b, hw = \<lparr>sim_regs = regs, sim_polls = p\<rparr>, bus = tr\<rparr> =
     Ret (if N - 1 < MAX_MODULE_HARDRESET_WAIT K then 0 else - EBUSY) s'"
    by blast
  moreover have "N - 1 < MAX_MODULE_HARDRESET_WAIT K \<longleftrightarrow> N \<le> MAX_MODULE_HARDRESET_WAIT K"
    using pos by arith
  ultimately show "\<exists>r s'.
           omap4_prminst_deassert_hardreset K
               (reset_sim_mmio (prm_reg_addr b part inst offs)
                  (prm_reg_addr b part inst (offs + 4)) shift N)
               shift part inst offs
               \<lparr>prm_bases = b, hw = \<lparr>sim_regs = regs, sim_polls = p\<rparr>, bus = tr\<rparr> = Ret r s' \<and>
           (r = 0 \<longleftrightarrow> N \<le> MAX_MODULE_HARDRESET_WAIT K) \<and>
           (r = - EBUSY \<longleftrightarrow> MAX_MODULE_HARDRESET_WAIT K < N)"
    by (cases "N \<le> MAX_MODULE_HARDRESET_WAIT K") (auto simp: EBUSY_def)
qed

theorem deassert_hardreset_asserted_witness:
  "\<not> prm_bug_on demo_consts demo_bases 1 \<and> (0 :: nat) < 3 \<and> (0 :: nat) < 4 \<and>
   bit ((\<lambda>_. 4 :: u32) (prm_reg_addr demo_bases 1 0x1B00 0x10)) (unat (2 :: u8)) \<and>
   (\<exists>s'. omap4_prminst_deassert_hardreset demo_consts
            (reset_sim_mmio (prm_reg_addr demo_bases 1 0x1B00 0x10)
               (prm_reg_addr demo_bases 1 0x1B00 (0x10 + 4)) 2 3)
            2 1 0x1B00 0x10
            \<lparr>prm_bases = demo_bases, hw = \<lparr>sim_regs = (\<lambda>_. 4), sim_polls = 0\<rparr>, bus = []\<rparr> =
          Ret 0 s') \<and>
   (\<exists>s'. omap4_prminst_deassert_hardreset demo_consts
            (reset_sim_mmio (prm_reg_addr demo_bases 1 0x1B00 0x10)
               (prm_reg_addr demo_bases 1 0x1B00 (0x10 + 4)) 2 4)
            2 1 0x1B00 0x10
            \<lparr>prm_bases = demo_bases, hw = \<lparr>sim_regs = (\<lambda>_. 4), sim_polls = 0\<rparr>, bus = []\<rparr> =
          Ret (- 16) s')"
proof -
  have b: "bit ((\<lambda>_. 4 :: u32) (prm_reg_addr demo_bases 1 0x1B00 0x10)) (unat (2 :: u8))"
    by simp
  have m: "MAX_MODULE_HARDRESET_WAIT demo_consts = 3"
    by (simp add: demo_consts_def)
  note t = deassert_hardreset_asserted [OF demo_no_bug, where inst = "0x1B00" and offs = "0x10"
      and shift = 2, THEN conjunct2, rule_format, OF _ b]
  from t [of 3 0 "[]"] have r1:
    "\<exists>s'. omap4_prminst_deassert_hardreset demo_consts
            (reset_sim_mmio (prm_reg_addr demo_bases 1 0x1B00 0x10)
               (prm_reg_addr demo_bases 1 0x1B00 (0x10 + 4)) 2 3)
            2 1 0x1B00 0x10
            \<lparr>prm_bases = demo_bases, hw = \<lparr>sim_regs = (\<lambda>_. 4), sim_polls = 0\<rparr>, bus = []\<rparr> =
          Ret 0 s'"
    unfolding m by auto
  from t [of 4 0 "[]"] have r2:
    "\<exists>s'. omap4_prminst_deassert_hardreset demo_consts
            (reset_sim_mmio (prm_reg_addr demo_bases 1 0x1B00 0x10)
               (prm_reg_addr demo_bases 1 0x1B00 (0x10 + 4)) 2 4)
            2 1 0x1B00 0x10
            \<lparr>prm_bases = demo_bases, hw = \<lparr>sim_regs = (\<lambda>_. 4), sim_polls = 0\<rparr>, bus = []\<rparr> =
          Ret (- 16) s'"
    unfolding m EBUSY_def by auto
  show ?thesis using demo_no_bug b r1 r2 by simp
qed

subsection \<open>The assertion guarding the accessors\<close>

text \<open>
  Claim C9.  The partitioned read and write stop the kernel, in the state they were called
  in and so without any register access, exactly when the partition number is at least
  \<open>OMAP4_MAX_PRCM_PARTITIONS\<close>, or equals the invalid-partition sentinel, or has a NULL
  base in the table; otherwise they access the address base(partition) + instance
  offset + register index and return.  In a table built by calls of \<open>omap4_prm_base_init\<close>
  from the zero-initialised array, with partition numbers as the header defines them, a
  partition with a non-NULL base never trips the assertion.
\<close>

theorem prminst_access_bug_on:
  "omap4_prminst_read_inst_reg K io part inst idx s =
     (if unat part \<ge> OMAP4_MAX_PRCM_PARTITIONS K \<or> part = OMAP4430_INVALID_PRCM_PARTITION K \<or>
         prm_bases s (unat part) = 0
      then Crash s
      else Ret (fst (raw_readl io (prm_bases s (unat part) + scast inst + ucast idx) (hw s)))
             (s\<lparr>hw := snd (raw_readl io (prm_bases s (unat part) + scast inst + ucast idx) (hw s)),
                bus := bus s @ [Readl (prm_bases s (unat part) + scast inst + ucast idx)]\<rparr>)) \<and>
   omap4_prminst_write_inst_reg K io val part inst idx s =
     (if unat part \<ge> OMAP4_MAX_PRCM_PARTITIONS K \<or> part = OMAP4430_INVALID_PRCM_PARTITION K \<or>
         prm_bases s (unat part) = 0
      then Crash s
      else Ret ()
             (s\<lparr>hw := raw_writel io val (prm_bases s (unat part) + scast inst + ucast idx) (hw s),
                bus := bus s @ [Writel val (prm_bases s (unat part) + scast inst + ucast idx)]\<rparr>)) \<and>
   (prcm_consts_ok K \<and> prm_bases s = prm_bases_after K gs \<and> prm_bases s (unat part) \<noteq> 0 \<longrightarrow>
      (\<exists>v s'. omap4_prminst_read_inst_reg K io part inst idx s = Ret v s') \<and>
      (\<exists>s'. omap4_prminst_write_inst_reg K io val part inst idx s = Ret () s'))"
proof (intro conjI impI)
  show "omap4_prminst_read_inst_reg K io part inst idx s =
     (if unat part \<ge> OMAP4_MAX_PRCM_PARTITIONS K \<or> part = OMAP4430_INVALID_PRCM_PARTITION K \<or>
         prm_bases s (unat part) = 0
      then Crash s
      else Ret (fst (raw_readl io (prm_bases s (unat part) + scast inst + ucast idx) (hw s)))
             (s\<lparr>hw := snd (raw_readl io (prm_bases s (unat part) + scast inst + ucast idx) (hw s)),
                bus := bus s @ [Readl (prm_bases s (unat part) + scast inst + ucast idx)]\<rparr>))"
    by (simp add: omap4_prminst_read_inst_reg_def prm_bug_on_def prm_reg_addr_def Let_def
        split: prod.splits)
  show "omap4_prminst_write_inst_reg K io val part inst idx s =
     (if unat part \<ge> OMAP4_MAX_PRCM_PARTITIONS K \<or> part = OMAP4430_INVALID_PRCM_PARTITION K \<or>
         prm_bases s (unat part) = 0
      then Crash s
      else Ret ()
             (s\<lparr>hw := raw_writel io val (prm_bases s (unat part) + scast inst + ucast idx) (hw s),
                bus := bus s @ [Writel val (prm_bases s (unat part) + scast inst + ucast idx)]\<rparr>))"
    by (simp add: omap4_prminst_write_inst_reg_def prm_bug_on_def prm_reg_addr_def Let_def)
next
  assume a: "prcm_consts_ok K \<and> prm_bases s = prm_bases_after K gs \<and> prm_bases s (unat part) \<noteq> 0"
  then have nb: "\<not> prm_bug_on K (prm_bases s) part"
    using reachable_no_bug [of K gs part] by auto
  show "\<exists>v s'. omap4_prminst_read_inst_reg K io part inst idx s = Ret v s'"
    using nb by (simp add: omap4_prminst_read_inst_reg_def Let_def split: prod.splits)
  show "\<exists>s'. omap4_prminst_write_inst_reg K io val part inst idx s = Ret () s'"
    using nb by (simp add: omap4_prminst_write_inst_reg_def Let_def)
qed

theorem prminst_access_bug_on_witness:
  "prcm_consts_ok demo_consts \<and>
   demo_bases =
     prm_bases_after demo_consts [\<lparr>prm = 0x4A306000, prcm_mpu = 0x48243000, scrm = 0x4A30A000\<rparr>] \<and>
   demo_bases (unat (1 :: u8)) \<noteq> 0 \<and>
   omap4_prminst_read_inst_reg demo_consts ram_mmio 1 0x1B00 0x10
       \<lparr>prm_bases = demo_bases, hw = (\<lambda>_. 7), bus = []\<rparr> =
     Ret 7 \<lparr>prm_bases = demo_bases, hw = (\<lambda>_. 7), bus = [Readl 0x4A307B10]\<rparr> \<and>
   omap4_prminst_read_inst_reg demo_consts ram_mmio 0 0x1B00 0x10
       \<lparr>prm_bases = demo_bases, hw = (\<lambda>_. 7), bus = []\<rparr> =
     Crash \<lparr>prm_bases = demo_bases, hw = (\<lambda>_. 7), bus = []\<rparr>"
proof -
  have nz: "demo_bases (unat (1 :: u8)) \<noteq> 0"
    by (simp add: demo_bases_def demo_consts_def omap4_prm_base_init_def)
  have a: "demo_bases (unat (1 :: u8)) + scast (0x1B00 :: s16) + ucast (0x10 :: u16) = 0x4A307B10"
    by (simp add: demo_bases_def demo_consts_def omap4_prm_base_init_def)
  have z: "demo_bases (unat (0 :: u8)) = 0"
    by (simp add: demo_bases_def demo_consts_def omap4_prm_base_init_def)
  have r1: "omap4_prminst_read_inst_reg demo_consts ram_mmio 1 0x1B00 0x10
       \<lparr>prm_bases = demo_bases, hw = (\<lambda>_. 7), bus = []\<rparr> =
     Ret 7 \<lparr>prm_bases = demo_bases, hw = (\<lambda>_. 7), bus = [Readl 0x4A307B10]\<rparr>"
    using prminst_access_bug_on [of demo_consts ram_mmio 1 "0x1B00" "0x10"
        "\<lparr>prm_bases = demo_bases, hw = (\<lambda>_. 7), bus = []\<rparr>" 0] nz a
    by (simp add: ram_mmio_def demo_consts_def)
  have r2: "omap4_prminst_read_inst_reg demo_consts ram_mmio 0 0x1B00 0x10
       \<lparr>prm_bases = demo_bases, hw = (\<lambda>_. 7), bus = []\<rparr> =
     Crash \<lparr>prm_bases = demo_bases, hw = (\<lambda>_. 7), bus = []\<rparr>"
    using prminst_access_bug_on [of demo_consts ram_mmio 0 "0x1B00" "0x10"
        "\<lparr>prm_bases = demo_bases, hw = (\<lambda>_. 7), bus = []\<rparr>" 0] z
    by (simp add: demo_consts_def)
  show ?thesis using demo_consts_ok demo_bases_reachable nz r1 r2 by simp
qed

section \<open>Properties of the voltage processor\<close>

subsection \<open>The recovery counter\<close>








subsection \<open>Error gain\<close>

lemma update_errorgain_no_touch:
  assumes "voltdm_p = None \<or> (\<exists>d. voltdm_p = Some d \<and> (vp d = None \<or> rmw d = None)) \<or>
           volt_data_p = None"
  shows "snd (omap_vp_update_errorgain E voltdm_p volt_data_p s) = s"
  using assms
  by (auto simp: omap_vp_update_errorgain_def split: option.splits)

lemma update_errorgain_einval:
  assumes "vp d = None \<or> volt_data_p = None"
  shows "omap_vp_update_errorgain E (Some d) volt_data_p s = (- EINVAL, s)"
  using assms
  by (auto simp: omap_vp_update_errorgain_def split: option.splits)

text \<open>
  Claim C6.  The claim asks for \<open>-EINVAL\<close> whenever the domain has no read-modify-write
  accessor.  On the domain \<open>demo_voltdm\<close> with its \<open>rmw\<close> accessor removed, which has a VP
  instance, and with a target descriptor present, \<open>omap_vp_update_errorgain\<close> returns 0,
  the success value, and not \<open>-EINVAL\<close>; the state is unchanged, so no register is touched.
\<close>

theorem update_errorgain_missing_rmw:
  "omap_vp_update_errorgain demo_env (Some (demo_voltdm\<lparr>rmw := None\<rparr>)) (Some demo_volt)
       (vp_boot ()) = (0, vp_boot ()) \<and>
   fst (omap_vp_update_errorgain demo_env (Some (demo_voltdm\<lparr>rmw := None\<rparr>)) (Some demo_volt)
       (vp_boot ())) \<noteq> - EINVAL"
  by (simp add: omap_vp_update_errorgain_def demo_voltdm_def EINVAL_def)

subsection \<open>Initialisation\<close>



lemma find_first_set_demo:
  "find_first_set 0xFF000000 = 24" "find_first_set 0x0000FF00 = 8" "find_first_set 0x00FF0000 = 16"
  by (simp_all add: find_first_set_def upt_rec bit_numeral_rec)


subsection \<open>Enabling\<close>

lemma set_init_voltage_configured:
  assumes "vp d = Some vpi" and "read d = Some rd" and "write' d = Some wr"
    and "pmic d = Some p" and "uv_to_vsel p = Some uv"
  shows "\<exists>s'. vp_set_init_voltage E d volt s =
             Ret ((vpconfig_initvoltage E (common vpi) (fst (rd (vpconfig vpi) (world s))) (uv volt))) s' \<and>
           events s' = events s @
             [Read (vpconfig vpi),
              Write ((vpconfig_initvoltage E (common vpi) (fst (rd (vpconfig vpi) (world s))) (uv volt)))
                (vpconfig vpi),
              Write ((vpconfig_initvoltage E (common vpi) (fst (rd (vpconfig vpi) (world s))) (uv volt)) OR
                  vpconfig_initvdd (common vpi))
                (vpconfig vpi),
              Write ((vpconfig_initvoltage E (common vpi) (fst (rd (vpconfig vpi) (world s))) (uv volt)))
                (vpconfig vpi)] \<and>
           vp_debug_error_message_count s' = vp_debug_error_message_count s \<and>
           vp_recover_count s' = vp_recover_count s"
  using assms
  by (simp add: vp_set_init_voltage_def call_read_def call_write_def Let_def)

text \<open>
  Claim C8.  For a domain with a VP instance, both register accessors, a PMIC with its
  \<open>uv_to_vsel\<close> conversion, and a current-voltage lookup that finds a descriptor, two calls
  of \<open>omap_vp_enable\<close> in succession behave as follows.  The first call returns with the
  VP instance marked enabled.  The second call, on the domain and state the first one
  left, changes neither: it produces no event at all, so no register write, and the
  instance is still marked enabled.  If the instance was disabled before the first call,
  the register writes of the first call are the three writes of the initial-voltage
  sequence followed by the write that sets the VP-enable bit; if it was enabled already,
  the first call changes nothing either.
\<close>

theorem vp_enable_idempotent:
  assumes "vp d = Some vpi" and "read d = Some rd" and "write' d = Some wr"
    and "pmic d = Some p" and "uv_to_vsel p = Some uv"
    and "omap_voltage_get_curr_vdata E d (world s) = Some volt"
  shows
    "\<exists>d1 s1 vpi1 c.
       omap_vp_enable E (Some d) s = Ret (Some d1) s1 \<and>
       vp d1 = Some vpi1 \<and> enabled vpi1 \<and>
       omap_vp_enable E (Some d1) s1 = Ret (Some d1) s1 \<and>
       (enabled vpi \<longrightarrow> d1 = d \<and> s1 = s) \<and>
       (\<not> enabled vpi \<longrightarrow>
          filter is_write (drop (length (events s)) (events s1)) =
            [Write c (vpconfig vpi), Write (c OR vpconfig_initvdd (common vpi)) (vpconfig vpi),
             Write c (vpconfig vpi), Write (c OR vpconfig_vpenable (common vpi)) (vpconfig vpi)])"
proof (cases "enabled vpi")
  case True
  then have "omap_vp_enable E (Some d) s = Ret (Some d) s"
    using assms by (simp add: omap_vp_enable_def)
  then show ?thesis using True assms(1) by auto
next
  case False
  let ?volt = "omap_get_operation_voltage E volt"
  let ?c = "vpconfig_initvoltage E (common vpi) (fst (rd (vpconfig vpi) (world s))) (uv ?volt)"
  from set_init_voltage_configured [OF assms(1-5), of E ?volt s]
  obtain s' where
    iv: "vp_set_init_voltage E d ?volt s = Ret ?c s'"
    and ev: "events s' = events s @ [Read (vpconfig vpi), Write ?c (vpconfig vpi),
               Write (?c OR vpconfig_initvdd (common vpi)) (vpconfig vpi), Write ?c (vpconfig vpi)]"
    by blast
  let ?d1 = "d\<lparr>vp := Some (vpi\<lparr>enabled := True\<rparr>)\<rparr>"
  let ?s1 = "call_write wr (?c OR vpconfig_vpenable (common vpi)) (vpconfig vpi) s'"
  have first: "omap_vp_enable E (Some d) s = Ret (Some ?d1) ?s1"
    using assms False iv by (simp add: omap_vp_enable_def Let_def)
  have second: "omap_vp_enable E (Some ?d1) ?s1 = Ret (Some ?d1) ?s1"
    using assms by (simp add: omap_vp_enable_def)
  have w: "filter is_write (drop (length (events s)) (events ?s1)) =
            [Write ?c (vpconfig vpi), Write (?c OR vpconfig_initvdd (common vpi)) (vpconfig vpi),
             Write ?c (vpconfig vpi), Write (?c OR vpconfig_vpenable (common vpi)) (vpconfig vpi)]"
    using ev by (simp add: call_write_def)
  show ?thesis
    using first second w False
    by (intro exI [of _ ?d1] exI [of _ ?s1] exI [of _ "vpi\<lparr>enabled := True\<rparr>"] exI [of _ ?c]) simp
qed

lemma demo_voltdm_fields:
  "vp demo_voltdm = Some demo_vp" "read demo_voltdm = Some (\<lambda>a w. (1, w))"
  "write' demo_voltdm = Some (\<lambda>v a w. w)" "pmic demo_voltdm = Some demo_pmic"
  "uv_to_vsel demo_pmic = Some (\<lambda>uv. ucast (uv div 12660))"
  by (simp_all add: demo_voltdm_def demo_pmic_def)

theorem vp_enable_idempotent_witness:
  "vp (demo_voltdm :: bool voltagedomain) = Some demo_vp \<and>
   read (demo_voltdm :: bool voltagedomain) = Some (\<lambda>a w. (1, w)) \<and>
   write' (demo_voltdm :: bool voltagedomain) = Some (\<lambda>v a w. w) \<and>
   pmic (demo_voltdm :: bool voltagedomain) = Some demo_pmic \<and>
   uv_to_vsel demo_pmic = Some (\<lambda>uv. ucast (uv div 12660)) \<and>
   omap_voltage_get_curr_vdata demo_env demo_voltdm (world (vp_boot True)) = Some demo_volt \<and>
   (\<exists>d1 s1 c.
      omap_vp_enable demo_env (Some demo_voltdm) (vp_boot True) = Ret (Some d1) s1 \<and>
      omap_vp_enable demo_env (Some d1) s1 = Ret (Some d1) s1 \<and>
      filter is_write (events s1) = [Write c 0, Write (c OR 4) 0, Write c 0, Write (c OR 1) 0])"
proof -
  have l: "omap_voltage_get_curr_vdata demo_env (demo_voltdm :: bool voltagedomain)
             (world (vp_boot True)) = Some demo_volt"
    by (simp add: demo_env_def)
  have v: "\<not> enabled (demo_vp :: bool omap_vp_instance)" "vpconfig (demo_vp :: bool omap_vp_instance) = 0"
    "vpconfig_initvdd (common (demo_vp :: bool omap_vp_instance)) = 4"
    "vpconfig_vpenable (common (demo_vp :: bool omap_vp_instance)) = 1"
    "events (vp_boot True) = []"
    by (simp_all add: demo_vp_def demo_common_def vp_boot_def)
  from vp_enable_idempotent [OF demo_voltdm_fields l]
  obtain d1 s1 c where
    a: "omap_vp_enable demo_env (Some demo_voltdm) (vp_boot True) = Ret (Some d1) s1"
    and b: "omap_vp_enable demo_env (Some d1) s1 = Ret (Some d1) s1"
    and w: "\<not> enabled (demo_vp :: bool omap_vp_instance) \<longrightarrow>
            filter is_write (drop (length (events (vp_boot True))) (events s1)) =
              [Write c (vpconfig (demo_vp :: bool omap_vp_instance)),
               Write (c OR vpconfig_initvdd (common (demo_vp :: bool omap_vp_instance)))
                 (vpconfig (demo_vp :: bool omap_vp_instance)),
               Write c (vpconfig (demo_vp :: bool omap_vp_instance)),
               Write (c OR vpconfig_vpenable (common (demo_vp :: bool omap_vp_instance)))
                 (vpconfig (demo_vp :: bool omap_vp_instance))]"
    by blast
  from w v(1) have w': "filter is_write (events s1) =
                     [Write c 0, Write (c OR 4) 0, Write c 0, Write (c OR 1) 0]"
    unfolding v(2-5) by simp
  from a b w' have "\<exists>d1 s1 c.
      omap_vp_enable demo_env (Some demo_voltdm) (vp_boot True) = Ret (Some d1) s1 \<and>
      omap_vp_enable demo_env (Some d1) s1 = Ret (Some d1) s1 \<and>
      filter is_write (events s1) = [Write c 0, Write (c OR 4) 0, Write c 0, Write (c OR 1) 0]"
    by blast
  with demo_voltdm_fields l show ?thesis
    by simp
qed

text \<open>
  Claim C10.  For a domain with a VP instance that is marked disabled and with both
  register accessors, when the current-voltage lookup finds no descriptor,
  \<open>omap_vp_enable\<close> returns the domain and the state as they were: no register is written
  and the instance stays marked disabled.  A later call on that domain, in any state in
  which the lookup finds a descriptor (and with the PMIC conversion present), reads the
  configuration register, makes the three writes of the initial-voltage sequence and the
  write that sets the VP-enable bit, and marks the instance enabled.
\<close>

theorem vp_enable_lookup_fails:
  assumes "vp d = Some vpi" and "read d = Some rd" and "write' d = Some wr"
    and "\<not> enabled vpi"
    and "omap_voltage_get_curr_vdata E d (world s) = None"
  shows
    "omap_vp_enable E (Some d) s = Ret (Some d) s \<and>
     (\<forall>s2 volt p uv.
        pmic d = Some p \<and> uv_to_vsel p = Some uv \<and>
        omap_voltage_get_curr_vdata E d (world s2) = Some volt \<longrightarrow>
        (\<exists>s3 c.
           omap_vp_enable E (Some d) s2 = Ret (Some (d\<lparr>vp := Some (vpi\<lparr>enabled := True\<rparr>)\<rparr>)) s3 \<and>
           events s3 = events s2 @
             [Read (vpconfig vpi), Write c (vpconfig vpi),
              Write (c OR vpconfig_initvdd (common vpi)) (vpconfig vpi), Write c (vpconfig vpi),
              Write (c OR vpconfig_vpenable (common vpi)) (vpconfig vpi)]))"
proof (intro conjI allI impI)
  show "omap_vp_enable E (Some d) s = Ret (Some d) s"
    using assms by (simp add: omap_vp_enable_def)
next
  fix s2 :: "'a vp_state" and volt p uv
  assume a: "pmic d = Some p \<and> uv_to_vsel p = Some uv \<and>
             omap_voltage_get_curr_vdata E d (world s2) = Some volt"
  let ?volt = "omap_get_operation_voltage E volt"
  let ?c = "vpconfig_initvoltage E (common vpi) (fst (rd (vpconfig vpi) (world s2))) (uv ?volt)"
  from a set_init_voltage_configured [OF assms(1-3), of p uv E ?volt s2]
  obtain s' where
    iv: "vp_set_init_voltage E d ?volt s2 = Ret ?c s'"
    and ev: "events s' = events s2 @ [Read (vpconfig vpi), Write ?c (vpconfig vpi),
               Write (?c OR vpconfig_initvdd (common vpi)) (vpconfig vpi), Write ?c (vpconfig vpi)]"
    by blast
  let ?s3 = "call_write wr (?c OR vpconfig_vpenable (common vpi)) (vpconfig vpi) s'"
  have "omap_vp_enable E (Some d) s2 = Ret (Some (d\<lparr>vp := Some (vpi\<lparr>enabled := True\<rparr>)\<rparr>)) ?s3"
    using assms a iv by (simp add: omap_vp_enable_def Let_def)
  moreover have "events ?s3 = events s2 @
             [Read (vpconfig vpi), Write ?c (vpconfig vpi),
              Write (?c OR vpconfig_initvdd (common vpi)) (vpconfig vpi), Write ?c (vpconfig vpi),
              Write (?c OR vpconfig_vpenable (common vpi)) (vpconfig vpi)]"
    using ev by (simp add: call_write_def)
  ultimately show "\<exists>s3 c.
           omap_vp_enable E (Some d) s2 = Ret (Some (d\<lparr>vp := Some (vpi\<lparr>enabled := True\<rparr>)\<rparr>)) s3 \<and>
           events s3 = events s2 @
             [Read (vpconfig vpi), Write c (vpconfig vpi),
              Write (c OR vpconfig_initvdd (common vpi)) (vpconfig vpi), Write c (vpconfig vpi),
              Write (c OR vpconfig_vpenable (common vpi)) (vpconfig vpi)]"
    by blast
qed


theorem vp_enable_lookup_fails_witness:
  "vp (demo_voltdm :: bool voltagedomain) = Some demo_vp \<and>
   read (demo_voltdm :: bool voltagedomain) = Some (\<lambda>a w. (1, w)) \<and>
   write' (demo_voltdm :: bool voltagedomain) = Some (\<lambda>v a w. w) \<and>
   \<not> enabled (demo_vp :: bool omap_vp_instance) \<and>
   omap_voltage_get_curr_vdata demo_env_lookup demo_voltdm (world (vp_boot False)) = None \<and>
   pmic (demo_voltdm :: bool voltagedomain) = Some demo_pmic \<and>
   uv_to_vsel demo_pmic = Some (\<lambda>uv. ucast (uv div 12660)) \<and>
   omap_voltage_get_curr_vdata demo_env_lookup demo_voltdm (world (vp_boot True)) = Some demo_volt \<and>
   omap_vp_enable demo_env_lookup (Some demo_voltdm) (vp_boot False) =
     Ret (Some demo_voltdm) (vp_boot False) \<and>
   (\<exists>s3 c.
      omap_vp_enable demo_env_lookup (Some demo_voltdm) (vp_boot True) =
        Ret (Some (demo_voltdm\<lparr>vp := Some (demo_vp\<lparr>enabled := True\<rparr>)\<rparr>)) s3 \<and>
      events s3 = [Read 0, Write c 0, Write (c OR 4) 0, Write c 0, Write (c OR 1) 0])"
proof -
  have l: "omap_voltage_get_curr_vdata demo_env_lookup (demo_voltdm :: bool voltagedomain)
             (world (vp_boot False)) = None"
    "omap_voltage_get_curr_vdata demo_env_lookup (demo_voltdm :: bool voltagedomain)
             (world (vp_boot True)) = Some demo_volt"
    by (simp_all add: demo_env_lookup_def vp_boot_def)
  have v: "\<not> enabled (demo_vp :: bool omap_vp_instance)" "vpconfig (demo_vp :: bool omap_vp_instance) = 0"
    "vpconfig_initvdd (common (demo_vp :: bool omap_vp_instance)) = 4"
    "vpconfig_vpenable (common (demo_vp :: bool omap_vp_instance)) = 1"
    "events (vp_boot True) = []"
    by (simp_all add: demo_vp_def demo_common_def vp_boot_def)
  note t = vp_enable_lookup_fails [OF demo_voltdm_fields(1-3) v(1) l(1)]
  from t [THEN conjunct2, rule_format, of demo_pmic "\<lambda>uv. ucast (uv div 12660)" "vp_boot True" demo_volt]
  have "\<exists>s3 c.
      omap_vp_enable demo_env_lookup (Some demo_voltdm) (vp_boot True) =
        Ret (Some (demo_voltdm\<lparr>vp := Some (demo_vp\<lparr>enabled := True\<rparr>)\<rparr>)) s3 \<and>
      events s3 = [Read 0, Write c 0, Write (c OR 4) 0, Write c 0, Write (c OR 1) 0]"
    using demo_voltdm_fields(4,5) l(2) unfolding v(2-5) by simp
  then show ?thesis
    using t [THEN conjunct1] demo_voltdm_fields l v(1) by simp
qed

subsection \<open>Force update\<close>

lemma test_timeout_exhausted:
  assumes "omap_test_timeout cond delay T i s = Ret c s'" and "i \<le> T"
  shows "i \<le> c \<and> c \<le> T \<and> (c = T \<longleftrightarrow> polls_all_fail cond delay (T - i) s)"
  using assms
proof (induction "T - i" arbitrary: i s)
  case 0
  then show ?case by (simp add: omap_test_timeout.simps)
next
  case (Suc n)
  then have lt: "i < T" and T: "T - i = Suc (T - (i + 1))" by simp_all
  show ?case
  proof (cases "cond s")
    case (Crash s0)
    with Suc.prems lt show ?thesis by (simp add: omap_test_timeout.simps [of cond delay T i s])
  next
    case (Ret b s0)
    show ?thesis
    proof (cases b)
      case True
      with Ret Suc.prems lt T show ?thesis
        by (auto simp: omap_test_timeout.simps [of cond delay T i s])
    next
      case False
      with Ret Suc.prems lt
      have r: "omap_test_timeout cond delay T (i + 1) (delay s0) = Ret c s'"
        by (simp add: omap_test_timeout.simps [of cond delay T i s])
      have n: "n = T - (i + 1)" using Suc.hyps(2) by simp
      from Suc.hyps(1) [OF n r] lt
      have "i + 1 \<le> c \<and> c \<le> T \<and> (c = T \<longleftrightarrow> polls_all_fail cond delay (T - (i + 1)) (delay s0))"
        by simp
      then show ?thesis using Ret False T by simp
    qed
  qed
qed

lemma idle_poll_events:
  assumes "i \<le> T"
  shows "\<exists>c s' evs.
           omap_test_timeout (vp_idle_cond rd vpi) (call_udelay E 1) T i s = Ret c s' \<and>
           events s' = events s @ evs \<and> (\<forall>e \<in> set evs. vp_silent e) \<and>
           vp_debug_error_message_count s' = vp_debug_error_message_count s \<and>
           vp_recover_count s' = vp_recover_count s"
  using assms
proof (induction "T - i" arbitrary: i s)
  case 0
  then show ?case by (simp add: omap_test_timeout.simps)
next
  case (Suc n)
  then have lt: "i < T" by simp
  let ?s0 = "snd (call_read rd (vstatus vpi) s)"
  have e0: "events ?s0 = events s @ [Read (vstatus vpi)]"
    "vp_debug_error_message_count ?s0 = vp_debug_error_message_count s"
    "vp_recover_count ?s0 = vp_recover_count s"
    by (simp_all add: call_read_def)
  show ?case
  proof (cases "fst (call_read rd (vstatus vpi) s) AND vstatus_vpidle (common vpi) \<noteq> 0")
    case True
    then have "omap_test_timeout (vp_idle_cond rd vpi) (call_udelay E 1) T i s = Ret i ?s0"
      using lt by (simp add: omap_test_timeout.simps [of _ _ T i s] vp_idle_cond_def)
    then show ?thesis using e0 by (simp add: vp_silent_def)
  next
    case False
    let ?s1 = "call_udelay E 1 ?s0"
    have st: "omap_test_timeout (vp_idle_cond rd vpi) (call_udelay E 1) T i s =
              omap_test_timeout (vp_idle_cond rd vpi) (call_udelay E 1) T (i + 1) ?s1"
      using lt False by (simp add: omap_test_timeout.simps [of _ _ T i s] vp_idle_cond_def)
    have e1: "events ?s1 = events s @ [Read (vstatus vpi), Udelay 1]"
      "vp_debug_error_message_count ?s1 = vp_debug_error_message_count s"
      "vp_recover_count ?s1 = vp_recover_count s"
      using e0 by (simp_all add: call_udelay_def)
    have n: "n = T - (i + 1)" using Suc.hyps(2) by simp
    from Suc.hyps(1) [OF n, of ?s1] lt obtain c s' evs where
      "omap_test_timeout (vp_idle_cond rd vpi) (call_udelay E 1) T (i + 1) ?s1 = Ret c s'"
      "events s' = events ?s1 @ evs" "\<forall>e \<in> set evs. vp_silent e"
      "vp_debug_error_message_count s' = vp_debug_error_message_count ?s1"
      "vp_recover_count s' = vp_recover_count ?s1"
      by auto
    then show ?thesis using st e1
      by (intro exI [of _ c] exI [of _ s'] exI [of _ "[Read (vstatus vpi), Udelay 1] @ evs"])
         (simp add: vp_silent_def)
  qed
qed


lemma txdone_poll_events:
  assumes "i \<le> T"
  shows "\<exists>c s' evs.
           omap_test_timeout (vp_txdone_cond vpi) (call_udelay E 1) T i s = Ret c s' \<and>
           events s' = events s @ evs \<and> (\<forall>e \<in> set evs. vp_silent e) \<and>
           vp_debug_error_message_count s' = vp_debug_error_message_count s \<and>
           vp_recover_count s' = vp_recover_count s"
  using assms
proof (induction "T - i" arbitrary: i s)
  case 0
  then show ?case by (simp add: omap_test_timeout.simps)
next
  case (Suc n)
  then have lt: "i < T" by simp
  let ?s0 = "snd (call_check_txdone vpi s)"
  have e0: "events ?s0 = events s @ [CheckTxdone (vp_id vpi)]"
    "vp_debug_error_message_count ?s0 = vp_debug_error_message_count s"
    "vp_recover_count ?s0 = vp_recover_count s"
    by (simp_all add: call_check_txdone_def)
  show ?case
  proof (cases "fst (call_check_txdone vpi s) \<noteq> 0")
    case True
    then have "omap_test_timeout (vp_txdone_cond vpi) (call_udelay E 1) T i s = Ret i ?s0"
      using lt by (simp add: omap_test_timeout.simps [of _ _ T i s] vp_txdone_cond_def)
    then show ?thesis using e0 by (simp add: vp_silent_def)
  next
    case False
    let ?s1 = "call_udelay E 1 ?s0"
    have st: "omap_test_timeout (vp_txdone_cond vpi) (call_udelay E 1) T i s =
              omap_test_timeout (vp_txdone_cond vpi) (call_udelay E 1) T (i + 1) ?s1"
      using lt False by (simp add: omap_test_timeout.simps [of _ _ T i s] vp_txdone_cond_def)
    have e1: "events ?s1 = events s @ [CheckTxdone (vp_id vpi), Udelay 1]"
      "vp_debug_error_message_count ?s1 = vp_debug_error_message_count s"
      "vp_recover_count ?s1 = vp_recover_count s"
      using e0 by (simp_all add: call_udelay_def)
    have n: "n = T - (i + 1)" using Suc.hyps(2) by simp
    from Suc.hyps(1) [OF n, of ?s1] lt obtain c s' evs where
      "omap_test_timeout (vp_txdone_cond vpi) (call_udelay E 1) T (i + 1) ?s1 = Ret c s'"
      "events s' = events ?s1 @ evs" "\<forall>e \<in> set evs. vp_silent e"
      "vp_debug_error_message_count s' = vp_debug_error_message_count ?s1"
      "vp_recover_count s' = vp_recover_count ?s1"
      by auto
    then show ?thesis using st e1
      by (intro exI [of _ c] exI [of _ s'] exI [of _ "[CheckTxdone (vp_id vpi), Udelay 1] @ evs"])
         (simp add: vp_silent_def)
  qed
qed

lemma clear_loop_events:
  "\<exists>evs. events (snd (vp_clear_txdone_loop E vpi t s)) = events s @ evs \<and>
          (\<forall>e \<in> set evs. vp_silent e) \<and>
          vp_debug_error_message_count (snd (vp_clear_txdone_loop E vpi t s)) =
            vp_debug_error_message_count s \<and>
          vp_recover_count (snd (vp_clear_txdone_loop E vpi t s)) = vp_recover_count s"
proof (induction E vpi t s rule: vp_clear_txdone_loop.induct)
  case (1 E vpi t s)
  let ?s0 = "snd (call_check_txdone vpi (call_clear_txdone vpi s))"
  have e0: "events ?s0 = events s @ [ClearTxdone (vp_id vpi), CheckTxdone (vp_id vpi)]"
    "vp_debug_error_message_count ?s0 = vp_debug_error_message_count s"
    "vp_recover_count ?s0 = vp_recover_count s"
    by (simp_all add: call_check_txdone_def call_clear_txdone_def)
  show ?case
  proof (cases "t < VP_TRANXDONE_TIMEOUT E")
    case False
    then show ?thesis by (simp add: vp_clear_txdone_loop.simps [of E vpi t s])
  next
    case lt: True
    show ?thesis
    proof (cases "fst (call_check_txdone vpi (call_clear_txdone vpi s)) = 0")
      case True
      then have "snd (vp_clear_txdone_loop E vpi t s) = ?s0"
        using lt by (simp add: vp_clear_txdone_loop.simps [of E vpi t s])
      then show ?thesis using e0 by (simp add: vp_silent_def)
    next
      case False
      let ?s1 = "call_udelay E 1 ?s0"
      have st: "vp_clear_txdone_loop E vpi t s = vp_clear_txdone_loop E vpi (t + 1) ?s1"
        using lt False by (simp add: vp_clear_txdone_loop.simps [of E vpi t s])
      have e1: "events ?s1 = events s @ [ClearTxdone (vp_id vpi), CheckTxdone (vp_id vpi), Udelay 1]"
        "vp_debug_error_message_count ?s1 = vp_debug_error_message_count s"
        "vp_recover_count ?s1 = vp_recover_count s"
        using e0 by (simp_all add: call_udelay_def)
      from "1.IH" [OF lt False] obtain evs where
        "events (snd (vp_clear_txdone_loop E vpi (t + 1) ?s1)) = events ?s1 @ evs"
        "\<forall>e \<in> set evs. vp_silent e"
        "vp_debug_error_message_count (snd (vp_clear_txdone_loop E vpi (t + 1) ?s1)) =
           vp_debug_error_message_count ?s1"
        "vp_recover_count (snd (vp_clear_txdone_loop E vpi (t + 1) ?s1)) = vp_recover_count ?s1"
        by auto
      then show ?thesis using st e1
        by (intro exI [of _ "[ClearTxdone (vp_id vpi), CheckTxdone (vp_id vpi), Udelay 1] @ evs"])
           (simp add: vp_silent_def)
    qed
  qed
qed

lemma clear_loop_exhausted:
  "fst (vp_clear_txdone_loop E vpi t s) \<ge> VP_TRANXDONE_TIMEOUT E \<longleftrightarrow>
     polls_all_fail (vp_clear_attempt vpi) (call_udelay E 1) (VP_TRANXDONE_TIMEOUT E - 1 - t) s"
proof (induction E vpi t s rule: vp_clear_txdone_loop.induct)
  case (1 E vpi t s)
  show ?case
  proof (cases "t < VP_TRANXDONE_TIMEOUT E")
    case False
    then show ?thesis by (simp add: vp_clear_txdone_loop.simps [of E vpi t s])
  next
    case lt: True
    show ?thesis
    proof (cases "fst (call_check_txdone vpi (call_clear_txdone vpi s)) = 0")
      case True
      then have f: "fst (vp_clear_txdone_loop E vpi t s) = t + 1"
        using lt by (simp add: vp_clear_txdone_loop.simps [of E vpi t s])
      show ?thesis
      proof (cases "VP_TRANXDONE_TIMEOUT E - 1 - t")
        case 0
        then show ?thesis using f lt by simp
      next
        case (Suc k)
        then show ?thesis using f lt True by (simp add: vp_clear_attempt_def)
      qed
    next
      case False
      let ?s1 = "call_udelay E 1 (snd (call_check_txdone vpi (call_clear_txdone vpi s)))"
      have st: "vp_clear_txdone_loop E vpi t s = vp_clear_txdone_loop E vpi (t + 1) ?s1"
        using lt False by (simp add: vp_clear_txdone_loop.simps [of E vpi t s])
      note ih = "1.IH" [OF lt False]
      show ?thesis
      proof (cases "VP_TRANXDONE_TIMEOUT E - 1 - t")
        case 0
        then have "VP_TRANXDONE_TIMEOUT E - 1 - (t + 1) = 0" by simp
        with ih st 0 show ?thesis by simp
      next
        case (Suc k)
        then have "VP_TRANXDONE_TIMEOUT E - 1 - (t + 1) = k" by simp
        with ih st Suc False show ?thesis by (simp add: vp_clear_attempt_def)
      qed
    qed
  qed
qed

lemma controlled_err_events:
  "\<exists>evs. events (vp_controlled_err vpi s) = events s @ evs \<and>
          filter is_write evs = [] \<and> filter is_post_scale evs = [] \<and>
          length (filter is_err evs) = 1"
  by (cases "recover (ops (common vpi))")
     (auto simp: vp_controlled_err_def Let_def)


lemma silent_filter:
  assumes "\<forall>e \<in> set evs. vp_silent e"
  shows "filter is_write evs = []" "filter is_post_scale evs = []" "filter is_err evs = []"
  using assms by (auto simp: vp_silent_def filter_empty_conv)

lemma wait_for_idle_result:
  assumes "read d = Some rd"
  shows "\<exists>r s1 evs.
           vp_wait_for_idle E d vpi s = Ret r s1 \<and> events s1 = events s @ evs \<and>
           (\<forall>e \<in> set evs. vp_silent e) \<and> (r = 0 \<or> r = - ETIMEDOUT) \<and>
           (r = - ETIMEDOUT \<longleftrightarrow>
              polls_all_fail (vp_idle_cond rd vpi) (call_udelay E 1) (VP_IDLE_TIMEOUT E) s)"
proof -
  from idle_poll_events [of 0 "VP_IDLE_TIMEOUT E" rd vpi E s]
  obtain c s1 evs where
    l: "omap_test_timeout (vp_idle_cond rd vpi) (call_udelay E 1) (VP_IDLE_TIMEOUT E) 0 s = Ret c s1"
    and e: "events s1 = events s @ evs" "\<forall>e \<in> set evs. vp_silent e"
    by auto
  from test_timeout_exhausted [OF l]
  have c: "c \<le> VP_IDLE_TIMEOUT E"
    "c = VP_IDLE_TIMEOUT E \<longleftrightarrow>
       polls_all_fail (vp_idle_cond rd vpi) (call_udelay E 1) (VP_IDLE_TIMEOUT E) s"
    by simp_all
  have "vp_wait_for_idle E d vpi s =
          Ret (if c \<ge> VP_IDLE_TIMEOUT E then - ETIMEDOUT else 0) s1"
    using assms l by (simp add: vp_wait_for_idle_def)
  then show ?thesis using e c
    by (intro exI [of _ "if c \<ge> VP_IDLE_TIMEOUT E then - ETIMEDOUT else 0"] exI [of _ s1]
          exI [of _ evs]) (auto simp: ETIMEDOUT_def)
qed

text \<open>
  A domain without a read accessor passes the precondition checks of
  \<open>omap_vp_forceupdate_scale\<close>, and the idle wait then calls through the NULL pointer.
\<close>

lemma forceupdate_scale_null_read:
  assumes "vp d = Some vpi" and "write' d = Some wr" and "read d = None"
  shows "omap_vp_forceupdate_scale E (Some d) (Some tv) s = Crash s"
  using assms by (simp add: omap_vp_forceupdate_scale_def vp_wait_for_idle_def)

text \<open>
  What \<open>omap_vp_forceupdate_scale\<close> does on a domain that passes its precondition checks
  (write accessor, target descriptor and VP instance present), whose read accessor and
  PMIC conversion are present as well, and whose pre-scale hook, called in the state \<open>s1\<close>
  that the idle wait leaves, succeeds with the selectors \<open>tvs\<close> and \<open>cvs\<close> and leaves the
  state \<open>s2\<close>.  The call returns, and it returns either 0 or \<open>-ETIMEDOUT\<close>.  It returns
  \<open>-ETIMEDOUT\<close> exactly when all \<open>VP_IDLE_TIMEOUT\<close> polls of the idle bit fail, or the
  first \<open>VP_TRANXDONE_TIMEOUT - 1\<close> passes of the clear loop before the trigger all leave
  the status pending.  In that case no register is written, the post-scale hook is not
  called, and the error path is taken once.  In every other case the call returns 0, the
  register writes are the three writes of the initial-voltage sequence, the write with
  the force-update bit and the write that clears it again, and the post-scale hook is
  called exactly once, with the target voltage and the selectors of the pre-scale hook.
  The error path is taken once before the post-scale hook if all \<open>VP_TRANXDONE_TIMEOUT\<close>
  polls after the trigger read the status as not done, and not at all before the hook
  otherwise; it is taken once after the hook if the first \<open>VP_TRANXDONE_TIMEOUT - 1\<close>
  passes of the clear loop of the cleanup all leave the status pending, and not at all
  after the hook otherwise.
\<close>

lemma forceupdate_scale_outcomes:
  assumes "vp d = Some vpi" and "read d = Some rd" and "write' d = Some wr"
    and "pmic d = Some p" and "uv_to_vsel p = Some uv"
    and idle: "vp_wait_for_idle E d vpi s = Ret ri s1"
    and pre: "call_pre_scale E d (omap_get_operation_voltage E tv) tv s1 = ((0, tvs, cvs), s2)"
  shows
    "\<exists>r s' new c.
       omap_vp_forceupdate_scale E (Some d) (Some tv) s = Ret r s' \<and>
       events s' = events s @ new \<and>
       (r = 0 \<or> r = - ETIMEDOUT) \<and>
       (r = - ETIMEDOUT \<longleftrightarrow>
          polls_all_fail (vp_idle_cond rd vpi) (call_udelay E 1) (VP_IDLE_TIMEOUT E) s \<or>
          polls_all_fail (vp_clear_attempt vpi) (call_udelay E 1) (VP_TRANXDONE_TIMEOUT E - 1) s2) \<and>
       (r = - ETIMEDOUT \<longrightarrow>
          filter is_write new = [] \<and> filter is_post_scale new = [] \<and>
          length (filter is_err new) = 1) \<and>
       (r = 0 \<longrightarrow>
          filter is_write new =
            [Write c (vpconfig vpi), Write (c OR vpconfig_initvdd (common vpi)) (vpconfig vpi),
             Write c (vpconfig vpi), Write (c OR vpconfig_forceupdate (common vpi)) (vpconfig vpi),
             Write c (vpconfig vpi)] \<and>
          filter is_post_scale new = [PostScale (omap_get_operation_voltage E tv) tvs cvs] \<and>
          (\<exists>s4 t6 s6 before after.
             vp_set_init_voltage E d (omap_get_operation_voltage E tv)
                 (snd (vp_clear_txdone_loop E vpi 0 s2)) = Ret c s4 \<and>
             omap_test_timeout (vp_txdone_cond vpi) (call_udelay E 1) (VP_TRANXDONE_TIMEOUT E) 0
                 (call_write wr (c OR vpconfig_forceupdate (common vpi)) (vpconfig vpi) s4) =
               Ret t6 s6 \<and>
             new = before @ [PostScale (omap_get_operation_voltage E tv) tvs cvs] @ after \<and>
             length (filter is_err before) =
               (if polls_all_fail (vp_txdone_cond vpi) (call_udelay E 1) (VP_TRANXDONE_TIMEOUT E)
                     (call_write wr (c OR vpconfig_forceupdate (common vpi)) (vpconfig vpi) s4)
                then 1 else 0) \<and>
             length (filter is_err after) =
               (if polls_all_fail (vp_clear_attempt vpi) (call_udelay E 1)
                     (VP_TRANXDONE_TIMEOUT E - 1)
                     (call_post_scale E d (omap_get_operation_voltage E tv) tv tvs cvs
                        (if VP_TRANXDONE_TIMEOUT E \<le> t6 then vp_controlled_err vpi s6 else s6))
                then 1 else 0)))"
proof -
  let ?TX = "VP_TRANXDONE_TIMEOUT E"
  let ?volt = "omap_get_operation_voltage E tv"
  let ?idle_out = "polls_all_fail (vp_idle_cond rd vpi) (call_udelay E 1) (VP_IDLE_TIMEOUT E) s"
  let ?clear_out = "polls_all_fail (vp_clear_attempt vpi) (call_udelay E 1) (?TX - 1) s2"
  from wait_for_idle_result [OF assms(2), of E vpi s] idle
  obtain evs1 where
    e1: "events s1 = events s @ evs1" and q1: "\<forall>e \<in> set evs1. vp_silent e"
    and ri: "ri = 0 \<or> ri = - ETIMEDOUT" and ri_iff: "ri = - ETIMEDOUT \<longleftrightarrow> ?idle_out"
    by auto
  note f1 = silent_filter [OF q1]
  show ?thesis
  proof (cases "ri = 0")
    case False
    with ri have rt: "ri = - ETIMEDOUT" by simp
    from controlled_err_events [of vpi s1] obtain ev where
      ev: "events (vp_controlled_err vpi s1) = events s1 @ ev" "filter is_write ev = []"
        "filter is_post_scale ev = []" "length (filter is_err ev) = 1"
      by blast
    have "omap_vp_forceupdate_scale E (Some d) (Some tv) s = Ret (- ETIMEDOUT) (vp_controlled_err vpi s1)"
      using assms(1,3) idle rt
      by (simp add: omap_vp_forceupdate_scale_def ETIMEDOUT_def)
    moreover have "events (vp_controlled_err vpi s1) = events s @ (evs1 @ ev)"
      using ev(1) e1 by simp
    ultimately show ?thesis using ev f1 ri_iff rt
      by (intro exI [of _ "- ETIMEDOUT"] exI [of _ "vp_controlled_err vpi s1"]
            exI [of _ "evs1 @ ev"] exI [of _ 0]) (simp add: ETIMEDOUT_def)
  next
    case True
    then have not_idle_out: "\<not> ?idle_out" using ri_iff by (simp add: ETIMEDOUT_def)
    have e2: "events s2 = events s1 @ [PreScale ?volt 0 tvs cvs]"
      using pre by (auto simp: call_pre_scale_def split: prod.splits)
    obtain t3 s3 where l3: "vp_clear_txdone_loop E vpi 0 s2 = (t3, s3)"
      by (cases "vp_clear_txdone_loop E vpi 0 s2")
    from clear_loop_events [of E vpi 0 s2] l3 obtain evs3 where
      e3: "events s3 = events s2 @ evs3" and q3: "\<forall>e \<in> set evs3. vp_silent e"
      by auto
    note f3 = silent_filter [OF q3]
    from clear_loop_exhausted [of E vpi 0 s2] l3
    have t3: "t3 \<ge> ?TX \<longleftrightarrow> ?clear_out" by simp
    show ?thesis
    proof (cases "t3 \<ge> ?TX")
      case out: True
      from controlled_err_events [of vpi s3] obtain ev where
        ev: "events (vp_controlled_err vpi s3) = events s3 @ ev" "filter is_write ev = []"
          "filter is_post_scale ev = []" "length (filter is_err ev) = 1"
        by blast
      have "omap_vp_forceupdate_scale E (Some d) (Some tv) s =
              Ret (- ETIMEDOUT) (vp_controlled_err vpi s3)"
        using assms(1,3) idle True pre l3 out
        by (simp add: omap_vp_forceupdate_scale_def)
      moreover have "events (vp_controlled_err vpi s3) =
                       events s @ (evs1 @ [PreScale ?volt 0 tvs cvs] @ evs3 @ ev)"
        using ev(1) e1 e2 e3 by simp
      ultimately show ?thesis using ev f1 f3 t3 out
        by (intro exI [of _ "- ETIMEDOUT"] exI [of _ "vp_controlled_err vpi s3"]
              exI [of _ "evs1 @ [PreScale ?volt 0 tvs cvs] @ evs3 @ ev"] exI [of _ 0])
           (simp add: ETIMEDOUT_def)
    next
      case ok: False
      let ?c = "vpconfig_initvoltage E (common vpi) (fst (rd (vpconfig vpi) (world s3))) (uv ?volt)"
      let ?a = "vpconfig vpi"
      have s3: "snd (vp_clear_txdone_loop E vpi 0 s2) = s3"
        using l3 by simp
      from set_init_voltage_configured [OF assms(1-5), of E ?volt s3]
      obtain s4 where
        l4: "vp_set_init_voltage E d ?volt s3 = Ret ?c s4"
        and e4: "events s4 = events s3 @ [Read ?a, Write ?c ?a,
                   Write (?c OR vpconfig_initvdd (common vpi)) ?a, Write ?c ?a]"
        by blast
      let ?s5 = "call_write wr (?c OR vpconfig_forceupdate (common vpi)) ?a s4"
      have e5: "events ?s5 = events s4 @ [Write (?c OR vpconfig_forceupdate (common vpi)) ?a]"
        by (simp add: call_write_def)
      from txdone_poll_events [of 0 ?TX vpi E ?s5]
      obtain t6 s6 evs6 where
        l6: "omap_test_timeout (vp_txdone_cond vpi) (call_udelay E 1) ?TX 0 ?s5 = Ret t6 s6"
        and e6: "events s6 = events ?s5 @ evs6" and q6: "\<forall>e \<in> set evs6. vp_silent e"
        by auto
      note f6 = silent_filter [OF q6]
      let ?wait_out = "polls_all_fail (vp_txdone_cond vpi) (call_udelay E 1) ?TX ?s5"
      from test_timeout_exhausted [OF l6]
      have t6: "t6 \<ge> ?TX \<longleftrightarrow> ?wait_out"
        by auto
      let ?s7 = "if t6 \<ge> ?TX then vp_controlled_err vpi s6 else s6"
      obtain ev7 where
        e7: "events ?s7 = events s6 @ ev7" "filter is_write ev7 = []"
          "filter is_post_scale ev7 = []"
          "length (filter is_err ev7) = (if ?wait_out then 1 else 0)"
      proof (cases "t6 \<ge> ?TX")
        case True
        from controlled_err_events [of vpi s6] obtain ev where
          "events (vp_controlled_err vpi s6) = events s6 @ ev" "filter is_write ev = []"
          "filter is_post_scale ev = []" "length (filter is_err ev) = 1"
          by blast
        with True t6 that [of ev] show ?thesis by simp
      next
        case False
        with t6 that [of "[]"] show ?thesis by simp
      qed
      let ?s8 = "call_post_scale E d ?volt tv tvs cvs ?s7"
      have e8: "events ?s8 = events ?s7 @ [PostScale ?volt tvs cvs]"
        by (simp add: call_post_scale_def)
      obtain t9 s9 where l9: "vp_clear_txdone_loop E vpi 0 ?s8 = (t9, s9)"
        by (cases "vp_clear_txdone_loop E vpi 0 ?s8")
      from clear_loop_events [of E vpi 0 ?s8] l9 obtain evs9 where
        e9: "events s9 = events ?s8 @ evs9" and q9: "\<forall>e \<in> set evs9. vp_silent e"
        by auto
      note f9 = silent_filter [OF q9]
      let ?cleanup_out = "polls_all_fail (vp_clear_attempt vpi) (call_udelay E 1) (?TX - 1) ?s8"
      from clear_loop_exhausted [of E vpi 0 ?s8] l9
      have t9: "t9 \<ge> ?TX \<longleftrightarrow> ?cleanup_out"
        by simp
      let ?s10 = "if t9 \<ge> ?TX then vp_controlled_err vpi s9 else s9"
      obtain ev10 where
        e10: "events ?s10 = events s9 @ ev10" "filter is_write ev10 = []"
          "filter is_post_scale ev10 = []"
          "length (filter is_err ev10) = (if ?cleanup_out then 1 else 0)"
      proof (cases "t9 \<ge> ?TX")
        case True
        from controlled_err_events [of vpi s9] obtain ev where
          "events (vp_controlled_err vpi s9) = events s9 @ ev" "filter is_write ev = []"
          "filter is_post_scale ev = []" "length (filter is_err ev) = 1"
          by blast
        with True t9 that [of ev] show ?thesis by simp
      next
        case False
        with t9 that [of "[]"] show ?thesis by simp
      qed
      let ?s11 = "call_write wr ?c ?a ?s10"
      have e11: "events ?s11 = events ?s10 @ [Write ?c ?a]"
        by (simp add: call_write_def)
      let ?before = "evs1 @ [PreScale ?volt 0 tvs cvs] @ evs3 @
                  [Read ?a, Write ?c ?a, Write (?c OR vpconfig_initvdd (common vpi)) ?a, Write ?c ?a] @
                  [Write (?c OR vpconfig_forceupdate (common vpi)) ?a] @ evs6 @ ev7"
      let ?after = "evs9 @ ev10 @ [Write ?c ?a]"
      let ?new = "?before @ [PostScale ?volt tvs cvs] @ ?after"
      have res: "omap_vp_forceupdate_scale E (Some d) (Some tv) s = Ret 0 ?s11"
        using assms(1,3) idle True pre l3 ok l4 l6 l9
        by (simp add: omap_vp_forceupdate_scale_def Let_def)
      have ev: "events ?s11 = events s @ ?new"
        unfolding e11 e10(1) e9 e8 e7(1) e6 e5 e4 e3 e2 e1 by simp
      have w: "filter is_write ?new =
                 [Write ?c ?a, Write (?c OR vpconfig_initvdd (common vpi)) ?a, Write ?c ?a,
                  Write (?c OR vpconfig_forceupdate (common vpi)) ?a, Write ?c ?a]"
        using f1(1) f3(1) f6(1) f9(1) e7(2) e10(2) by simp
      have ps: "filter is_post_scale ?new = [PostScale ?volt tvs cvs]"
        using f1(2) f3(2) f6(2) f9(2) e7(3) e10(3) by simp
      have eb: "length (filter is_err ?before) = (if ?wait_out then 1 else 0)"
        using f1(3) f3(3) f6(3) e7(4) by simp
      have ea: "length (filter is_err ?after) = (if ?cleanup_out then 1 else 0)"
        using f9(3) e10(4) by simp
      have l4': "vp_set_init_voltage E d ?volt (snd (vp_clear_txdone_loop E vpi 0 s2)) = Ret ?c s4"
        unfolding s3 by (rule l4)
      have steps: "\<exists>s4 t6 s6 before after.
             vp_set_init_voltage E d ?volt (snd (vp_clear_txdone_loop E vpi 0 s2)) = Ret ?c s4 \<and>
             omap_test_timeout (vp_txdone_cond vpi) (call_udelay E 1) ?TX 0
                 (call_write wr (?c OR vpconfig_forceupdate (common vpi)) ?a s4) = Ret t6 s6 \<and>
             ?new = before @ [PostScale ?volt tvs cvs] @ after \<and>
             length (filter is_err before) =
               (if polls_all_fail (vp_txdone_cond vpi) (call_udelay E 1) ?TX
                     (call_write wr (?c OR vpconfig_forceupdate (common vpi)) ?a s4)
                then 1 else 0) \<and>
             length (filter is_err after) =
               (if polls_all_fail (vp_clear_attempt vpi) (call_udelay E 1) (?TX - 1)
                     (call_post_scale E d ?volt tv tvs cvs
                        (if ?TX \<le> t6 then vp_controlled_err vpi s6 else s6))
                then 1 else 0)"
        using l4' l6 eb ea
        by (intro exI [of _ s4] exI [of _ t6] exI [of _ s6] exI [of _ ?before] exI [of _ ?after])
           (intro conjI refl)
      have no: "\<not> ?clear_out" using t3 ok by simp
      have "omap_vp_forceupdate_scale E (Some d) (Some tv) s = Ret 0 ?s11 \<and>
            events ?s11 = events s @ ?new \<and>
            ((0::int) = 0 \<or> (0::int) = - ETIMEDOUT) \<and>
            ((0::int) = - ETIMEDOUT \<longleftrightarrow> ?idle_out \<or> ?clear_out) \<and>
            ((0::int) = - ETIMEDOUT \<longrightarrow>
               filter is_write ?new = [] \<and> filter is_post_scale ?new = [] \<and>
               length (filter is_err ?new) = 1) \<and>
            ((0::int) = 0 \<longrightarrow>
               filter is_write ?new =
                 [Write ?c ?a, Write (?c OR vpconfig_initvdd (common vpi)) ?a, Write ?c ?a,
                  Write (?c OR vpconfig_forceupdate (common vpi)) ?a, Write ?c ?a] \<and>
               filter is_post_scale ?new = [PostScale ?volt tvs cvs] \<and>
               (\<exists>s4 t6 s6 before after.
                  vp_set_init_voltage E d ?volt (snd (vp_clear_txdone_loop E vpi 0 s2)) = Ret ?c s4 \<and>
                  omap_test_timeout (vp_txdone_cond vpi) (call_udelay E 1) ?TX 0
                      (call_write wr (?c OR vpconfig_forceupdate (common vpi)) ?a s4) = Ret t6 s6 \<and>
                  ?new = before @ [PostScale ?volt tvs cvs] @ after \<and>
                  length (filter is_err before) =
                    (if polls_all_fail (vp_txdone_cond vpi) (call_udelay E 1) ?TX
                          (call_write wr (?c OR vpconfig_forceupdate (common vpi)) ?a s4)
                     then 1 else 0) \<and>
                  length (filter is_err after) =
                    (if polls_all_fail (vp_clear_attempt vpi) (call_udelay E 1) (?TX - 1)
                          (call_post_scale E d ?volt tv tvs cvs
                             (if ?TX \<le> t6 then vp_controlled_err vpi s6 else s6))
                     then 1 else 0)))"
        using res ev w ps steps no not_idle_out
        by (intro conjI impI iffI) (simp_all add: ETIMEDOUT_def)
      then show ?thesis
        by (intro exI [of _ 0] exI [of _ ?s11] exI [of _ ?new] exI [of _ ?c])
    qed
  qed
qed

text \<open>
  Two runs on the device that ignores its state.  With every register reading as 1 the idle
  wait succeeds at once, the wait after the trigger times out (the status never reads as
  done) and the call returns 0 after one error report; with every register reading as 0
  the idle wait times out and the call returns \<open>-ETIMEDOUT\<close>.
\<close>

lemma demo_wait_for_idle:
  "vp_wait_for_idle demo_env demo_voltdm demo_vp (vp_boot True) =
     Ret 0 ((vp_boot True)\<lparr>events := [Read 16]\<rparr>)"
  by (simp add: vp_wait_for_idle_def demo_env_def demo_voltdm_def demo_vp_def demo_common_def
      omap_test_timeout.simps vp_idle_cond_def call_read_def vp_boot_def ETIMEDOUT_def)

lemma demo_pre_scale:
  "call_pre_scale demo_env demo_voltdm (omap_get_operation_voltage demo_env demo_volt) demo_volt
       ((vp_boot True)\<lparr>events := [Read 16]\<rparr>) =
     ((0, 0x10, 0x20), (vp_boot True)\<lparr>events := [Read 16, PreScale 1266000 0 0x10 0x20]\<rparr>)"
  by (simp add: call_pre_scale_def demo_env_def demo_volt_def vp_boot_def)

lemma demo_idle_ok:
  "\<not> polls_all_fail (vp_idle_cond (\<lambda>a w. (1, w)) demo_vp) (call_udelay demo_env 1)
       (VP_IDLE_TIMEOUT (demo_env :: bool vp_env)) (vp_boot True)"
proof -
  have t: "VP_IDLE_TIMEOUT (demo_env :: bool vp_env) = Suc (Suc 0)"
    by (simp add: demo_env_def)
  show ?thesis
    unfolding t by (simp add: vp_idle_cond_def call_read_def demo_vp_def demo_common_def)
qed

lemma demo_clear_ok:
  "\<not> polls_all_fail (vp_clear_attempt demo_vp) (call_udelay demo_env 1)
       (VP_TRANXDONE_TIMEOUT (demo_env :: 'a vp_env) - 1) (s :: 'a vp_state)"
proof -
  have t: "VP_TRANXDONE_TIMEOUT (demo_env :: 'a vp_env) - 1 = Suc (Suc 0)"
    by (simp add: demo_env_def)
  show ?thesis
    unfolding t
    by (simp add: vp_clear_attempt_def call_check_txdone_def call_clear_txdone_def demo_vp_def
        demo_common_def demo_ops_def)
qed

lemma demo_forceupdate_events:
  "omap_vp_forceupdate_scale demo_env (Some demo_voltdm) (Some demo_volt) (vp_boot True) =
     Ret 0 \<lparr>world = True,
            events = [Read 16, PreScale 1266000 0 0x10 0x20, ClearTxdone 0, CheckTxdone 0,
                      Read 0, Write 0x6401 0, Write 0x6405 0, Write 0x6401 0, Write 0x6403 0,
                      CheckTxdone 0, Udelay 1, CheckTxdone 0, Udelay 1, CheckTxdone 0, Udelay 1,
                      ErrDump, PostScale 1266000 0x10 0x20, ClearTxdone 0, CheckTxdone 0,
                      Write 0x6401 0],
            vp_debug_error_message_count = 9, vp_recover_count = 49\<rparr>"
  by (simp add: omap_vp_forceupdate_scale_def vp_wait_for_idle_def vp_set_init_voltage_def
      vpconfig_initvoltage_def vp_controlled_err_def vp_txdone_cond_def vp_idle_cond_def
      call_read_def call_write_def call_check_txdone_def call_clear_txdone_def call_udelay_def
      call_pre_scale_def call_post_scale_def omap_test_timeout.simps vp_clear_txdone_loop.simps
      demo_env_def demo_voltdm_def demo_vp_def demo_common_def demo_ops_def demo_pmic_def
      demo_volt_def vp_boot_def MAX_COUNT_ERR_def MAX_RETRIES_BEFORE_RECOVER_def ETIMEDOUT_def
      EINVAL_def find_first_set_demo Let_def)

lemma demo_busy_fields:
  "vp (demo_voltdm\<lparr>read := Some (\<lambda>a w. (0, w))\<rparr>) = Some demo_vp"
  "read (demo_voltdm\<lparr>read := Some (\<lambda>a w. (0, w))\<rparr>) = Some (\<lambda>a w. (0, w))"
  "write' (demo_voltdm\<lparr>read := Some (\<lambda>a w. (0, w))\<rparr>) = Some (\<lambda>v a w. w)"
  "pmic (demo_voltdm\<lparr>read := Some (\<lambda>a w. (0, w))\<rparr>) = Some demo_pmic"
  by (simp_all add: demo_voltdm_def)

lemma demo_busy_wait_for_idle:
  "vp_wait_for_idle demo_env (demo_voltdm\<lparr>read := Some (\<lambda>a w. (0, w))\<rparr>) demo_vp (vp_boot True) =
     Ret (- 110) ((vp_boot True)\<lparr>events := [Read 16, Udelay 1, Read 16, Udelay 1]\<rparr>)"
  by (simp add: vp_wait_for_idle_def demo_env_def demo_voltdm_def demo_vp_def demo_common_def
      omap_test_timeout.simps vp_idle_cond_def call_read_def call_udelay_def vp_boot_def
      ETIMEDOUT_def)

lemma demo_busy_pre_scale:
  "call_pre_scale demo_env (demo_voltdm\<lparr>read := Some (\<lambda>a w. (0, w))\<rparr>)
       (omap_get_operation_voltage demo_env demo_volt) demo_volt
       ((vp_boot True)\<lparr>events := [Read 16, Udelay 1, Read 16, Udelay 1]\<rparr>) =
     ((0, 0x10, 0x20),
      (vp_boot True)\<lparr>events := [Read 16, Udelay 1, Read 16, Udelay 1,
                                 PreScale 1266000 0 0x10 0x20]\<rparr>)"
  by (simp add: call_pre_scale_def demo_env_def demo_volt_def vp_boot_def)

lemma demo_busy_idle_out:
  "polls_all_fail (vp_idle_cond (\<lambda>a w. (0, w)) demo_vp) (call_udelay demo_env 1)
       (VP_IDLE_TIMEOUT (demo_env :: bool vp_env)) (vp_boot True)"
proof -
  have t: "VP_IDLE_TIMEOUT (demo_env :: bool vp_env) = Suc (Suc 0)"
    by (simp add: demo_env_def)
  show ?thesis
    unfolding t by (simp add: vp_idle_cond_def call_read_def demo_vp_def demo_common_def)
qed

lemma forceupdate_scale_outcomes_examples:
  "vp (demo_voltdm :: bool voltagedomain) = Some demo_vp \<and>
   read (demo_voltdm :: bool voltagedomain) = Some (\<lambda>a w. (1, w)) \<and>
   write' (demo_voltdm :: bool voltagedomain) = Some (\<lambda>v a w. w) \<and>
   pmic (demo_voltdm :: bool voltagedomain) = Some demo_pmic \<and>
   uv_to_vsel demo_pmic = Some (\<lambda>uv. ucast (uv div 12660)) \<and>
   vp_wait_for_idle demo_env demo_voltdm demo_vp (vp_boot True) =
     Ret 0 ((vp_boot True)\<lparr>events := [Read 16]\<rparr>) \<and>
   call_pre_scale demo_env demo_voltdm (omap_get_operation_voltage demo_env demo_volt) demo_volt
       ((vp_boot True)\<lparr>events := [Read 16]\<rparr>) =
     ((0, 0x10, 0x20), (vp_boot True)\<lparr>events := [Read 16, PreScale 1266000 0 0x10 0x20]\<rparr>) \<and>
   (\<exists>s'. omap_vp_forceupdate_scale demo_env (Some demo_voltdm) (Some demo_volt) (vp_boot True) =
            Ret 0 s' \<and>
          filter is_post_scale (events s') = [PostScale 1266000 0x10 0x20] \<and>
          filter is_err (events s') = [ErrDump] \<and>
          filter is_write (events s') =
            [Write 0x6401 0, Write 0x6405 0, Write 0x6401 0, Write 0x6403 0, Write 0x6401 0]) \<and>
   vp_wait_for_idle demo_env (demo_voltdm\<lparr>read := Some (\<lambda>a w. (0, w))\<rparr>) demo_vp (vp_boot True) =
     Ret (- 110) ((vp_boot True)\<lparr>events := [Read 16, Udelay 1, Read 16, Udelay 1]\<rparr>) \<and>
   (\<exists>s'. omap_vp_forceupdate_scale demo_env (Some (demo_voltdm\<lparr>read := Some (\<lambda>a w. (0, w))\<rparr>))
            (Some demo_volt) (vp_boot True) = Ret (- 110) s' \<and>
          filter is_write (events s') = [] \<and> filter is_post_scale (events s') = [] \<and>
          length (filter is_err (events s')) = 1)"
proof -
  have v: "omap_get_operation_voltage (demo_env :: bool vp_env) demo_volt = 1266000"
    "events (vp_boot True) = []"
    by (simp_all add: demo_env_def demo_volt_def vp_boot_def)
  from forceupdate_scale_outcomes [OF demo_voltdm_fields demo_wait_for_idle demo_pre_scale]
    demo_idle_ok demo_clear_ok
  obtain s' new where
    r: "omap_vp_forceupdate_scale demo_env (Some demo_voltdm) (Some demo_volt) (vp_boot True) =
          Ret 0 s'"
    and e: "events s' = events (vp_boot True) @ new"
    and p: "filter is_post_scale new =
              [PostScale (omap_get_operation_voltage (demo_env :: bool vp_env) demo_volt) 0x10 0x20]"
    by (auto simp: ETIMEDOUT_def)
  from r demo_forceupdate_events
  have s': "s' = \<lparr>world = True,
            events = [Read 16, PreScale 1266000 0 0x10 0x20, ClearTxdone 0, CheckTxdone 0,
                      Read 0, Write 0x6401 0, Write 0x6405 0, Write 0x6401 0, Write 0x6403 0,
                      CheckTxdone 0, Udelay 1, CheckTxdone 0, Udelay 1, CheckTxdone 0, Udelay 1,
                      ErrDump, PostScale 1266000 0x10 0x20, ClearTxdone 0, CheckTxdone 0,
                      Write 0x6401 0],
            vp_debug_error_message_count = 9, vp_recover_count = 49\<rparr>"
    by simp
  have "filter is_post_scale (events s') = [PostScale 1266000 0x10 0x20]"
    using e p unfolding v by simp
  moreover have "filter is_err (events s') = [ErrDump]"
    "filter is_write (events s') =
       [Write 0x6401 0, Write 0x6405 0, Write 0x6401 0, Write 0x6403 0, Write 0x6401 0]"
    unfolding s' by simp_all
  ultimately have ok: "\<exists>s'. omap_vp_forceupdate_scale demo_env (Some demo_voltdm) (Some demo_volt)
                          (vp_boot True) = Ret 0 s' \<and>
          filter is_post_scale (events s') = [PostScale 1266000 0x10 0x20] \<and>
          filter is_err (events s') = [ErrDump] \<and>
          filter is_write (events s') =
            [Write 0x6401 0, Write 0x6405 0, Write 0x6401 0, Write 0x6403 0, Write 0x6401 0]"
    using r by blast
  from forceupdate_scale_outcomes [OF demo_busy_fields demo_voltdm_fields(5)
      demo_busy_wait_for_idle demo_busy_pre_scale] demo_busy_idle_out
  obtain t' new' where
    "omap_vp_forceupdate_scale demo_env (Some (demo_voltdm\<lparr>read := Some (\<lambda>a w. (0, w))\<rparr>))
       (Some demo_volt) (vp_boot True) = Ret (- ETIMEDOUT) t'"
    "events t' = events (vp_boot True) @ new'"
    "filter is_write new' = []" "filter is_post_scale new' = []"
    "length (filter is_err new') = 1"
    by auto
  then have out: "\<exists>s'. omap_vp_forceupdate_scale demo_env
            (Some (demo_voltdm\<lparr>read := Some (\<lambda>a w. (0, w))\<rparr>))
            (Some demo_volt) (vp_boot True) = Ret (- 110) s' \<and>
          filter is_write (events s') = [] \<and> filter is_post_scale (events s') = [] \<and>
          length (filter is_err (events s')) = 1"
    unfolding v ETIMEDOUT_def by auto
  from ok out demo_voltdm_fields demo_wait_for_idle demo_pre_scale demo_busy_wait_for_idle
  show ?thesis
    by simp
qed

text \<open>
  The two polling loops of the function treat their last attempt differently.  The wait
  built on \<open>omap_test_timeout\<close> fails only when every attempt of the budget has failed
  (\<open>test_timeout_exhausted\<close>); the clear loop fails as soon as the attempts before the last
  have failed (\<open>clear_loop_exhausted\<close>), also when its last attempt of the budget clears the
  status.  The device below keeps the status pending for its first \<open>k\<close> checks.
\<close>

lemma demo_pending_budget:
  "VP_TRANXDONE_TIMEOUT (demo_env :: nat vp_env) = Suc (Suc (Suc 0))"
  by (simp add: demo_env_def)

lemma demo_pending_clear_loop:
  "vp_clear_txdone_loop demo_env (demo_pending_vp 2) 0
       ((vp_boot 0)\<lparr>events := [Read 16, PreScale 1266000 0 0x10 0x20]\<rparr>) =
     (3, (vp_boot 0)\<lparr>world := 3,
                     events := [Read 16, PreScale 1266000 0 0x10 0x20,
                                ClearTxdone 0, CheckTxdone 0, Udelay 1,
                                ClearTxdone 0, CheckTxdone 0, Udelay 1,
                                ClearTxdone 0, CheckTxdone 0]\<rparr>)"
  by (simp add: vp_clear_txdone_loop.simps call_check_txdone_def call_clear_txdone_def
      call_udelay_def demo_env_def demo_pending_vp_def demo_pending_ops_def demo_vp_def
      demo_common_def vp_boot_def)

lemma demo_pending_third_pass_clears:
  "\<not> polls_all_fail (vp_clear_attempt (demo_pending_vp 2)) (call_udelay demo_env 1)
       (VP_TRANXDONE_TIMEOUT (demo_env :: nat vp_env))
       ((vp_boot 0)\<lparr>events := [Read 16, PreScale 1266000 0 0x10 0x20]\<rparr>)"
  unfolding demo_pending_budget
  by (simp add: vp_clear_attempt_def call_check_txdone_def call_clear_txdone_def
      call_udelay_def demo_env_def demo_pending_vp_def demo_pending_ops_def demo_vp_def
      demo_common_def vp_boot_def)

lemma demo_pending_aborts:
  "omap_vp_forceupdate_scale demo_env (Some (demo_pending_voltdm 2)) (Some demo_volt) (vp_boot 0) =
     Ret (- 110)
       \<lparr>world = 3,
        events = [Read 16, PreScale 1266000 0 0x10 0x20,
                  ClearTxdone 0, CheckTxdone 0, Udelay 1,
                  ClearTxdone 0, CheckTxdone 0, Udelay 1,
                  ClearTxdone 0, CheckTxdone 0, ErrDump],
        vp_debug_error_message_count = 9, vp_recover_count = 49\<rparr>"
  by (simp add: omap_vp_forceupdate_scale_def vp_wait_for_idle_def vp_controlled_err_def
      vp_idle_cond_def call_read_def call_check_txdone_def call_clear_txdone_def call_udelay_def
      call_pre_scale_def omap_test_timeout.simps vp_clear_txdone_loop.simps
      demo_env_def demo_pending_voltdm_def demo_pending_vp_def demo_pending_ops_def
      demo_voltdm_def demo_vp_def demo_common_def demo_volt_def vp_boot_def MAX_COUNT_ERR_def
      MAX_RETRIES_BEFORE_RECOVER_def ETIMEDOUT_def EINVAL_def Let_def)

lemma demo_pending_proceeds:
  "omap_vp_forceupdate_scale demo_env (Some (demo_pending_voltdm 1)) (Some demo_volt) (vp_boot 0) =
     Ret 0
       \<lparr>world = 6,
        events = [Read 16, PreScale 1266000 0 0x10 0x20,
                  ClearTxdone 0, CheckTxdone 0, Udelay 1,
                  ClearTxdone 0, CheckTxdone 0,
                  Read 0, Write 0x6401 0, Write 0x6405 0, Write 0x6401 0, Write 0x6403 0,
                  CheckTxdone 0, Udelay 1, CheckTxdone 0, Udelay 1, CheckTxdone 0, Udelay 1,
                  ErrDump, PostScale 1266000 0x10 0x20, ClearTxdone 0, CheckTxdone 0,
                  Write 0x6401 0],
        vp_debug_error_message_count = 9, vp_recover_count = 49\<rparr>"
  by (simp add: omap_vp_forceupdate_scale_def vp_wait_for_idle_def vp_set_init_voltage_def
      vpconfig_initvoltage_def vp_controlled_err_def vp_txdone_cond_def vp_idle_cond_def
      call_read_def call_write_def call_check_txdone_def call_clear_txdone_def call_udelay_def
      call_pre_scale_def call_post_scale_def omap_test_timeout.simps vp_clear_txdone_loop.simps
      demo_env_def demo_pending_voltdm_def demo_pending_vp_def demo_pending_ops_def
      demo_voltdm_def demo_vp_def demo_common_def demo_pmic_def
      demo_volt_def vp_boot_def MAX_COUNT_ERR_def MAX_RETRIES_BEFORE_RECOVER_def ETIMEDOUT_def
      EINVAL_def find_first_set_demo Let_def)

text \<open>
  Claim C1.  The claim lets the call fail with the hardware steps left out only when the
  idle wait or the clear loop before the trigger exhausts its budget, that is, when the
  status is still pending after the last pass the budget allows.  The clear loop counts
  each pass before making it and compares the count with \<open>>=\<close> after the loop, so it also
  reports a timeout when the last pass of the budget is the one that clears the status.
  Take a budget of \<open>VP_TRANXDONE_TIMEOUT = 3\<close> passes and the device whose status reads as
  pending at the first two checks and as clear at the third.  The checks of the function
  pass, the idle wait succeeds at its first poll and the pre-scale hook succeeds.  The
  third pass of the clear loop reads the status as clear, so the three passes of the
  budget do not all fail, and the loop stops there without a further delay.  Still the
  call takes the error path and returns \<open>-ETIMEDOUT\<close>: no register is written and the
  post-scale hook is not called.  On the device whose status clears one check earlier,
  the same call returns 0, makes the five register writes and calls the post-scale hook
  once.
\<close>

theorem forceupdate_scale_clear_last_pass:
  "VP_TRANXDONE_TIMEOUT (demo_env :: nat vp_env) = 3 \<and>
   write' (demo_pending_voltdm 2) \<noteq> None \<and> vp (demo_pending_voltdm 2) = Some (demo_pending_vp 2) \<and>
   vp_wait_for_idle demo_env (demo_pending_voltdm 2) (demo_pending_vp 2) (vp_boot 0) =
     Ret 0 ((vp_boot 0)\<lparr>events := [Read 16]\<rparr>) \<and>
   call_pre_scale demo_env (demo_pending_voltdm 2) (omap_get_operation_voltage demo_env demo_volt)
       demo_volt ((vp_boot 0)\<lparr>events := [Read 16]\<rparr>) =
     ((0, 0x10, 0x20), (vp_boot 0)\<lparr>events := [Read 16, PreScale 1266000 0 0x10 0x20]\<rparr>) \<and>
   vp_clear_txdone_loop demo_env (demo_pending_vp 2) 0
       ((vp_boot 0)\<lparr>events := [Read 16, PreScale 1266000 0 0x10 0x20]\<rparr>) =
     (3, (vp_boot 0)\<lparr>world := 3,
                     events := [Read 16, PreScale 1266000 0 0x10 0x20,
                                ClearTxdone 0, CheckTxdone 0, Udelay 1,
                                ClearTxdone 0, CheckTxdone 0, Udelay 1,
                                ClearTxdone 0, CheckTxdone 0]\<rparr>) \<and>
   check_txdone (demo_pending_ops 2) 0 2 = (0, 3) \<and>
   \<not> polls_all_fail (vp_clear_attempt (demo_pending_vp 2)) (call_udelay demo_env 1)
       (VP_TRANXDONE_TIMEOUT (demo_env :: nat vp_env))
       ((vp_boot 0)\<lparr>events := [Read 16, PreScale 1266000 0 0x10 0x20]\<rparr>) \<and>
   omap_vp_forceupdate_scale demo_env (Some (demo_pending_voltdm 2)) (Some demo_volt) (vp_boot 0) =
     Ret (- ETIMEDOUT)
       \<lparr>world = 3,
        events = [Read 16, PreScale 1266000 0 0x10 0x20,
                  ClearTxdone 0, CheckTxdone 0, Udelay 1,
                  ClearTxdone 0, CheckTxdone 0, Udelay 1,
                  ClearTxdone 0, CheckTxdone 0, ErrDump],
        vp_debug_error_message_count = 9, vp_recover_count = 49\<rparr> \<and>
   omap_vp_forceupdate_scale demo_env (Some (demo_pending_voltdm 1)) (Some demo_volt) (vp_boot 0) =
     Ret 0
       \<lparr>world = 6,
        events = [Read 16, PreScale 1266000 0 0x10 0x20,
                  ClearTxdone 0, CheckTxdone 0, Udelay 1,
                  ClearTxdone 0, CheckTxdone 0,
                  Read 0, Write 0x6401 0, Write 0x6405 0, Write 0x6401 0, Write 0x6403 0,
                  CheckTxdone 0, Udelay 1, CheckTxdone 0, Udelay 1, CheckTxdone 0, Udelay 1,
                  ErrDump, PostScale 1266000 0x10 0x20, ClearTxdone 0, CheckTxdone 0,
                  Write 0x6401 0],
        vp_debug_error_message_count = 9, vp_recover_count = 49\<rparr>"
proof -
  have a: "VP_TRANXDONE_TIMEOUT (demo_env :: nat vp_env) = 3"
    by (simp add: demo_env_def)
  have b: "write' (demo_pending_voltdm 2) \<noteq> None"
    "vp (demo_pending_voltdm 2) = Some (demo_pending_vp 2)"
    by (simp_all add: demo_pending_voltdm_def demo_voltdm_def)
  have c: "vp_wait_for_idle demo_env (demo_pending_voltdm 2) (demo_pending_vp 2) (vp_boot 0) =
             Ret 0 ((vp_boot 0)\<lparr>events := [Read 16]\<rparr>)"
    by (simp add: vp_wait_for_idle_def demo_env_def demo_pending_voltdm_def demo_pending_vp_def
        demo_voltdm_def demo_vp_def demo_common_def omap_test_timeout.simps vp_idle_cond_def
        call_read_def vp_boot_def ETIMEDOUT_def)
  have d: "call_pre_scale demo_env (demo_pending_voltdm 2)
               (omap_get_operation_voltage demo_env demo_volt) demo_volt
               ((vp_boot 0)\<lparr>events := [Read 16]\<rparr>) =
             ((0, 0x10, 0x20), (vp_boot 0)\<lparr>events := [Read 16, PreScale 1266000 0 0x10 0x20]\<rparr>)"
    by (simp add: call_pre_scale_def demo_env_def demo_volt_def vp_boot_def)
  have e: "check_txdone (demo_pending_ops 2) 0 2 = (0, 3)"
    by (simp add: demo_pending_ops_def)
  have f: "omap_vp_forceupdate_scale demo_env (Some (demo_pending_voltdm 2)) (Some demo_volt)
               (vp_boot 0) =
             Ret (- ETIMEDOUT)
               \<lparr>world = 3,
                events = [Read 16, PreScale 1266000 0 0x10 0x20,
                          ClearTxdone 0, CheckTxdone 0, Udelay 1,
                          ClearTxdone 0, CheckTxdone 0, Udelay 1,
                          ClearTxdone 0, CheckTxdone 0, ErrDump],
                vp_debug_error_message_count = 9, vp_recover_count = 49\<rparr>"
    using demo_pending_aborts by (simp add: ETIMEDOUT_def)
  from a b c d demo_pending_clear_loop e demo_pending_third_pass_clears f demo_pending_proceeds
  show ?thesis
    by (intro conjI)
qed

end
